theory Spec2Isabelle
  imports Main "HOL-Library.Word"
begin

unbundle bit_operations_syntax

text \<open>
  The stream layer of the package \<^verbatim>\<open>spdy\<close> (\<^verbatim>\<open>util.go\<close>): the accessors of the
  frames, the merging of headers, the frame channel \<^verbatim>\<open>ChanFramer\<close>, the two
  validators of a stream, and \<^verbatim>\<open>Copy\<close>. The operations are run by one goroutine:
  \<^verbatim>\<open>Promise\<close> and \<^verbatim>\<open>Splice\<close>, which start goroutines, are not modelled, and the
  calls of \<^verbatim>\<open>debug\<close>, which only write to the log, are left out.
\<close>

section \<open>Frames and their accessors\<close>

text \<open>
  An \<^verbatim>\<open>http.Header\<close> is a Go map from strings to string slices. It is kept as an
  association list with one entry per key; the order of the entries is the order in
  which a \<^verbatim>\<open>range\<close> loop visits the map (Go leaves that order open, and so do
  the theorems: they hold for every list). Reading a key is \<open>values_of\<close>, Go's
  \<^verbatim>\<open>h[key]\<close>: the empty slice for a key that is not there.
\<close>

type_synonym Header = "(string \<times> string list) list"

definition values_of :: "Header \<Rightarrow> string \<Rightarrow> string list" where
  "values_of h key = (case map_of h key of None \<Rightarrow> [] | Some vs \<Rightarrow> vs)"

text \<open>
  Modelled from the spec: the nine frame structs, which the package declares in a
  file that is not among the sources. The spec gives the variants and what each
  carries; \<^verbatim>\<open>util.go\<close> names the fields it reads, and those are the fields kept
  here. The arguments are, in this order:
  \<^item> \<open>DataFrame\<close>: \<^verbatim>\<open>StreamId\<close>, \<^verbatim>\<open>Flags\<close>, \<^verbatim>\<open>Data\<close>;
  \<^item> \<open>SynStreamFrame\<close>, \<open>HeadersFrame\<close>, \<open>SynReplyFrame\<close>:
    \<^verbatim>\<open>CFHeader.Flags\<close>, \<^verbatim>\<open>StreamId\<close>, \<^verbatim>\<open>Headers\<close>;
  \<^item> \<open>RstStreamFrame\<close>: \<^verbatim>\<open>CFHeader.Flags\<close>, \<^verbatim>\<open>StreamId\<close>, \<^verbatim>\<open>Status\<close>;
  \<^item> \<open>NoopFrame\<close>, \<open>SettingsFrame\<close>, \<open>PingFrame\<close>, \<open>GoAwayFrame\<close>:
    \<^verbatim>\<open>CFHeader.Flags\<close>.

  A value of type \<open>Frame\<close> is a non-nil pointer to one of the nine structs; the flag
  types are bytes, stream ids and status codes are \<^verbatim>\<open>uint32\<close>.
\<close>

datatype Frame =
    DataFrame "32 word" "8 word" "8 word list"
  | SynStreamFrame "8 word" "32 word" Header
  | HeadersFrame "8 word" "32 word" Header
  | SynReplyFrame "8 word" "32 word" Header
  | RstStreamFrame "8 word" "32 word" "32 word"
  | NoopFrame "8 word"
  | SettingsFrame "8 word"
  | PingFrame "8 word"
  | GoAwayFrame "8 word"

text \<open>
  The constants \<^verbatim>\<open>ControlFlagFin\<close>, \<^verbatim>\<open>DataFlagFin\<close> and \<^verbatim>\<open>ProtocolError\<close> are
  declared in the same missing file. Every operation that reads one takes them as a
  parameter \<open>K\<close>, so a theorem about every \<open>K\<close> holds whatever their values are.
\<close>

record Consts =
  ControlFlagFin :: "8 word"
  DataFlagFin :: "8 word"
  ProtocolError :: "32 word"

text \<open>
  Modelled from the spec: the values of the three constants, for the concrete runs.
  The spec calls the fin flag a bit of the flags and the protocol error a status code
  of its own, other than 9; the values are those of the protocol draft that the
  package comment names (\<^verbatim>\<open>FLAG_FIN = 0x01\<close>, \<^verbatim>\<open>PROTOCOL_ERROR = 1\<close>).
\<close>

definition draft_consts :: Consts where
  "draft_consts = \<lparr>ControlFlagFin = 1, DataFlagFin = 1, ProtocolError = 1\<rparr>"

fun GetStreamId :: "Frame \<Rightarrow> 32 word" where
  "GetStreamId (DataFrame i fl d) = i"
| "GetStreamId (SynStreamFrame fl i h) = i"
| "GetStreamId (HeadersFrame fl i h) = i"
| "GetStreamId (SynReplyFrame fl i h) = i"
| "GetStreamId (RstStreamFrame fl i st) = i"
| "GetStreamId (NoopFrame fl) = 0"
| "GetStreamId (SettingsFrame fl) = 0"
| "GetStreamId (PingFrame fl) = 0"
| "GetStreamId (GoAwayFrame fl) = 0"

fun GetHeaders :: "Frame \<Rightarrow> Header option" where
  "GetHeaders (DataFrame i fl d) = None"
| "GetHeaders (SynStreamFrame fl i h) = Some h"
| "GetHeaders (HeadersFrame fl i h) = Some h"
| "GetHeaders (SynReplyFrame fl i h) = Some h"
| "GetHeaders (RstStreamFrame fl i st) = None"
| "GetHeaders (NoopFrame fl) = None"
| "GetHeaders (SettingsFrame fl) = None"
| "GetHeaders (PingFrame fl) = None"
| "GetHeaders (GoAwayFrame fl) = None"

fun GetFinFlag :: "Consts \<Rightarrow> Frame \<Rightarrow> bool" where
  "GetFinFlag K (DataFrame i fl d) = (fl AND DataFlagFin K \<noteq> 0)"
| "GetFinFlag K (SynStreamFrame fl i h) = (fl AND ControlFlagFin K \<noteq> 0)"
| "GetFinFlag K (HeadersFrame fl i h) = (fl AND ControlFlagFin K \<noteq> 0)"
| "GetFinFlag K (SynReplyFrame fl i h) = (fl AND ControlFlagFin K \<noteq> 0)"
| "GetFinFlag K (RstStreamFrame fl i st) = (fl AND ControlFlagFin K \<noteq> 0)"
| "GetFinFlag K (NoopFrame fl) = (fl AND ControlFlagFin K \<noteq> 0)"
| "GetFinFlag K (SettingsFrame fl) = (fl AND ControlFlagFin K \<noteq> 0)"
| "GetFinFlag K (PingFrame fl) = (fl AND ControlFlagFin K \<noteq> 0)"
| "GetFinFlag K (GoAwayFrame fl) = (fl AND ControlFlagFin K \<noteq> 0)"

text \<open>The type assertion of a frame to \<^verbatim>\<open>*RstStreamFrame\<close>.\<close>

fun isRst :: "Frame \<Rightarrow> bool" where
  "isRst (RstStreamFrame fl i st) = True"
| "isRst (DataFrame i fl d) = False"
| "isRst (SynStreamFrame fl i h) = False"
| "isRst (HeadersFrame fl i h) = False"
| "isRst (SynReplyFrame fl i h) = False"
| "isRst (NoopFrame fl) = False"
| "isRst (SettingsFrame fl) = False"
| "isRst (PingFrame fl) = False"
| "isRst (GoAwayFrame fl) = False"

section \<open>Header merging\<close>

text \<open>
  \<^verbatim>\<open>headers.Add(key, value)\<close> is \<^verbatim>\<open>http.Header.Add\<close> of Go's standard
  library: it replaces the key by \<^verbatim>\<open>textproto.CanonicalMIMEHeaderKey(key)\<close> and
  then runs \<^verbatim>\<open>h[key] = append(h[key], value)\<close>. The canonical form of a key made
  of token bytes only (letters, digits and the marks that a header field name may
  hold) has its first letter and every letter after a hyphen in upper case and its
  other letters in lower case. A key that holds any other byte, a space among them,
  is returned as it is. The header of a frame and the header of a half are
  different maps.
\<close>

definition validHeaderFieldByte :: "char \<Rightarrow> bool" where
  "validHeaderFieldByte c =
     (let n = (of_char c :: nat) in
        (48 \<le> n \<and> n \<le> 57) \<or> (65 \<le> n \<and> n \<le> 90) \<or> (97 \<le> n \<and> n \<le> 122) \<or>
        n \<in> set [33, 35, 36, 37, 38, 39, 42, 43, 45, 46, 94, 95, 96, 124, 126])"

definition is_lower :: "char \<Rightarrow> bool" where
  "is_lower c = (97 \<le> (of_char c :: nat) \<and> (of_char c :: nat) \<le> 122)"

definition is_upper :: "char \<Rightarrow> bool" where
  "is_upper c = (65 \<le> (of_char c :: nat) \<and> (of_char c :: nat) \<le> 90)"

definition to_upper :: "char \<Rightarrow> char" where
  "to_upper c = char_of ((of_char c :: nat) - 32)"

definition to_lower :: "char \<Rightarrow> char" where
  "to_lower c = char_of ((of_char c :: nat) + 32)"

text \<open>
  One pass over the key: \<open>None\<close> as soon as a byte is not a token byte, and
  otherwise the key with its letters put in the right case; \<open>upper\<close> says whether
  the next letter is to be in upper case.
\<close>

fun canonical_from :: "bool \<Rightarrow> string \<Rightarrow> string option" where
  "canonical_from upper [] = Some []"
| "canonical_from upper (c # cs) =
     (if \<not> validHeaderFieldByte c then None
      else
        (case canonical_from (c = CHR ''-'') cs of
           None \<Rightarrow> None
         | Some rest \<Rightarrow>
             Some ((if upper \<and> is_lower c then to_upper c
                    else if \<not> upper \<and> is_upper c then to_lower c
                    else c) # rest)))"

definition CanonicalMIMEHeaderKey :: "string \<Rightarrow> string" where
  "CanonicalMIMEHeaderKey s = (case canonical_from True s of None \<Rightarrow> s | Some t \<Rightarrow> t)"

fun append_value :: "string \<Rightarrow> string \<Rightarrow> Header \<Rightarrow> Header" where
  "append_value key v [] = [(key, [v])]"
| "append_value key v ((k, vs) # h) =
     (if k = key then (k, vs @ [v]) # h else (k, vs) # append_value key v h)"

definition Header_Add :: "Header \<Rightarrow> string \<Rightarrow> string \<Rightarrow> Header" where
  "Header_Add h key v = append_value (CanonicalMIMEHeaderKey key) v h"

definition UpdateHeaders :: "Header \<Rightarrow> Header \<Rightarrow> Header" where
  "UpdateHeaders headers newHeaders =
     fold (\<lambda>(key, vals) h. fold (\<lambda>v h'. Header_Add h' key v) vals h) newHeaders headers"

section \<open>The frame channel\<close>

text \<open>
  A call returns, or it blocks for ever (a send on a full channel or a receive on an
  empty open one, with no other goroutine to free it), or it panics.
\<close>

datatype 'a outcome = Returns 'a | Blocks | Panics

fun and_then :: "'a outcome \<Rightarrow> ('a \<Rightarrow> 'b outcome) \<Rightarrow> 'b outcome" where
  "and_then (Returns x) f = f x"
| "and_then Blocks f = Blocks"
| "and_then Panics f = Panics"

text \<open>
  \<^verbatim>\<open>io.EOF\<close> and the values of \<^verbatim>\<open>errors.New\<close>. A Go \<^verbatim>\<open>error\<close> is an
  \<open>error option\<close>, \<open>None\<close> being \<^verbatim>\<open>nil\<close>.
\<close>

datatype error = EOF | errorString string

text \<open>
  A buffered Go channel of frames, \<^verbatim>\<open>make(chan Frame, 4096)\<close>: the frames waiting
  in it, oldest first, and whether \<^verbatim>\<open>close\<close> has been called on it.
\<close>

record chan =
  chan_buf :: "Frame list"
  chan_closed :: bool

definition chan_cap :: nat where
  "chan_cap = 4096"

definition chan_send :: "Frame \<Rightarrow> chan \<Rightarrow> chan outcome" where
  "chan_send frame c =
     (if chan_closed c then Panics
      else if length (chan_buf c) < chan_cap then Returns (c\<lparr>chan_buf := chan_buf c @ [frame]\<rparr>)
      else Blocks)"

definition chan_recv :: "chan \<Rightarrow> ((Frame option \<times> bool) \<times> chan) outcome" where
  "chan_recv c =
     (case chan_buf c of
        frame # rest \<Rightarrow> Returns ((Some frame, True), c\<lparr>chan_buf := rest\<rparr>)
      | [] \<Rightarrow> if chan_closed c then Returns ((None, False), c) else Blocks)"

definition chan_close :: "chan \<Rightarrow> chan outcome" where
  "chan_close c = (if chan_closed c then Panics else Returns (c\<lparr>chan_closed := True\<rparr>))"

record ChanFramer =
  ch :: chan
  err :: "error option"

definition NewChanFramer :: ChanFramer where
  "NewChanFramer = \<lparr>ch = \<lparr>chan_buf = [], chan_closed = False\<rparr>, err = None\<rparr>"

definition ChanFramer_WriteFrame :: "Frame \<Rightarrow> ChanFramer \<Rightarrow> (error option \<times> ChanFramer) outcome" where
  "ChanFramer_WriteFrame frame framer =
     (if err framer \<noteq> None then Returns (err framer, framer)
      else and_then (chan_send frame (ch framer)) (\<lambda>c. Returns (None, framer\<lparr>ch := c\<rparr>)))"

definition ChanFramer_ReadFrame ::
  "ChanFramer \<Rightarrow> ((Frame option \<times> error option) \<times> ChanFramer) outcome" where
  "ChanFramer_ReadFrame framer =
     and_then (chan_recv (ch framer)) (\<lambda>((frame, ok), c).
       if \<not> ok then Returns ((None, err framer), framer\<lparr>ch := c\<rparr>)
       else Returns ((frame, None), framer\<lparr>ch := c\<rparr>))"

definition ChanFramer_Error :: "error option \<Rightarrow> ChanFramer \<Rightarrow> ChanFramer outcome" where
  "ChanFramer_Error e framer =
     (if err framer \<noteq> None then Returns framer
      else and_then (chan_close (ch framer)) (\<lambda>c. Returns (framer\<lparr>err := e, ch := c\<rparr>)))"

definition ChanFramer_Close :: "ChanFramer \<Rightarrow> ChanFramer outcome" where
  "ChanFramer_Close framer = ChanFramer_Error (Some EOF) framer"

definition ChanFramer_Closed :: "ChanFramer \<Rightarrow> bool" where
  "ChanFramer_Closed framer = (err framer \<noteq> None)"

section \<open>Streams and their two halves\<close>

text \<open>
  A \<^verbatim>\<open>HalfStream\<close> embeds a \<^verbatim>\<open>*ChanFramer\<close> and points back to its stream. The
  two halves of a stream are the fields \<open>Input\<close> and \<open>Output\<close> of the stream's
  record, and an operation on a half takes the stream and the half it works on, so
  that \<^verbatim>\<open>s.stream\<close> is the stream at hand. The counter \<^verbatim>\<open>nFrames\<close> is a
  \<^verbatim>\<open>uint32\<close>: adding one to it wraps round.
\<close>

record HalfStream =
  ChanFramer :: ChanFramer
  Headers :: Header
  nFrames :: "32 word"

record Stream =
  Id' :: "32 word"
  Input :: HalfStream
  Output :: HalfStream
  local :: bool

datatype Half = InputHalf | OutputHalf

fun half_of :: "Half \<Rightarrow> Stream \<Rightarrow> HalfStream" where
  "half_of InputHalf s = Input s"
| "half_of OutputHalf s = Output s"

fun set_half :: "Half \<Rightarrow> HalfStream \<Rightarrow> Stream \<Rightarrow> Stream" where
  "set_half InputHalf h s = s\<lparr>Input := h\<rparr>"
| "set_half OutputHalf h s = s\<lparr>Output := h\<rparr>"

fun other_half :: "Half \<Rightarrow> Half" where
  "other_half InputHalf = OutputHalf"
| "other_half OutputHalf = InputHalf"

definition NewHalfStream :: HalfStream where
  "NewHalfStream = \<lparr>ChanFramer = NewChanFramer, Headers = [], nFrames = 0\<rparr>"

definition NewStream :: "32 word \<Rightarrow> bool \<Rightarrow> Stream" where
  "NewStream i l = \<lparr>Id' = i, Input = NewHalfStream, Output = NewHalfStream, local = l\<rparr>"

text \<open>The methods a half inherits from its \<^verbatim>\<open>ChanFramer\<close>.\<close>

definition HalfStream_Closed :: "Half \<Rightarrow> Stream \<Rightarrow> bool" where
  "HalfStream_Closed side s = ChanFramer_Closed (ChanFramer (half_of side s))"

definition HalfStream_Close :: "Half \<Rightarrow> Stream \<Rightarrow> Stream outcome" where
  "HalfStream_Close side s =
     and_then (ChanFramer_Close (ChanFramer (half_of side s)))
       (\<lambda>framer. Returns (set_half side ((half_of side s)\<lparr>ChanFramer := framer\<rparr>) s))"

definition Stream_Close :: "Stream \<Rightarrow> Stream outcome" where
  "Stream_Close s = and_then (HalfStream_Close InputHalf s) (HalfStream_Close OutputHalf)"

definition HalfStream_WriteFrame ::
  "Consts \<Rightarrow> Half \<Rightarrow> Frame \<Rightarrow> Stream \<Rightarrow> (error option \<times> Stream) outcome" where
  "HalfStream_WriteFrame K side frame s =
     and_then (ChanFramer_WriteFrame frame (ChanFramer (half_of side s))) (\<lambda>(e, framer).
       let s1 = set_half side ((half_of side s)\<lparr>ChanFramer := framer\<rparr>) s in
       if e \<noteq> None then Returns (e, s1)
       else
         let s2 = set_half side ((half_of side s1)\<lparr>nFrames := nFrames (half_of side s1) + 1\<rparr>) s1 in
         and_then (if GetFinFlag K frame then HalfStream_Close side s2 else Returns s2) (\<lambda>s3.
           let s4 = (case GetHeaders frame of
                       Some headers \<Rightarrow>
                         set_half side
                           ((half_of side s3)\<lparr>Headers := UpdateHeaders (Headers (half_of side s3)) headers\<rparr>) s3
                     | None \<Rightarrow> s3) in
           and_then (if isRst frame then Stream_Close s4 else Returns s4) (\<lambda>s5.
             Returns (None, s5))))"

definition StreamOutput_WriteFrame ::
  "Consts \<Rightarrow> Frame \<Rightarrow> Stream \<Rightarrow> (error option \<times> Stream) outcome" where
  "StreamOutput_WriteFrame K frame s =
     (if HalfStream_Closed OutputHalf s then Returns (Some (errorString ''Output closed''), s)
      else
        (case frame of
           SynStreamFrame fl i h \<Rightarrow>
             if 0 < nFrames (Output s) \<or> \<not> local s
             then Returns (Some (errorString ''Won't send invalid SYN_STREAM frame''), s)
             else HalfStream_WriteFrame K OutputHalf frame s
         | SynReplyFrame fl i h \<Rightarrow>
             if 0 < nFrames (Output s) \<or> local s
             then Returns (Some (errorString ''Won't send invalid SYN_REPLY frame''), s)
             else HalfStream_WriteFrame K OutputHalf frame s
         | HeadersFrame fl i h \<Rightarrow>
             if nFrames (Output s) = 0
             then Returns (Some (errorString ''First frame sent must be SYN_STREAM or SYN_REPLY''), s)
             else HalfStream_WriteFrame K OutputHalf frame s
         | DataFrame i fl d \<Rightarrow>
             if nFrames (Output s) = 0
             then Returns (Some (errorString ''First frame sent must be SYN_STREAM or SYN_REPLY''), s)
             else HalfStream_WriteFrame K OutputHalf frame s
         | _ \<Rightarrow> Returns (Some (errorString ''Won't send invalid frame type''), s)))"

definition Stream_WriteFrame :: "Consts \<Rightarrow> Frame \<Rightarrow> Stream \<Rightarrow> (error option \<times> Stream) outcome" where
  "Stream_WriteFrame K frame s = StreamOutput_WriteFrame K frame s"

text \<open>
  \<^verbatim>\<open>Reply\<close> and \<^verbatim>\<open>Syn\<close> take a \<^verbatim>\<open>*http.Header\<close>, \<open>None\<close> being \<^verbatim>\<open>nil\<close>.
  \<^verbatim>\<open>new(http.Header)\<close> points to the zero header, which has no key. The frame
  literal reads \<^verbatim>\<open>*headers\<close>, which panics on a nil pointer.
\<close>

definition Stream_Reply ::
  "Consts \<Rightarrow> Header option \<Rightarrow> bool \<Rightarrow> Stream \<Rightarrow> (error option \<times> Stream) outcome" where
  "Stream_Reply K headers fin s =
     (let headers1 = (if headers = None then Some [] else headers);
          flags = (if fin then ControlFlagFin K else 0)
      in case headers1 of
           None \<Rightarrow> Panics
         | Some h \<Rightarrow> StreamOutput_WriteFrame K (SynReplyFrame flags (Id' s) h) s)"

definition Stream_Syn ::
  "Consts \<Rightarrow> Header option \<Rightarrow> bool \<Rightarrow> Stream \<Rightarrow> (error option \<times> Stream) outcome" where
  "Stream_Syn K headers fin s =
     (let headers1 = (if headers = None then Some [] else headers);
          flags = (if fin then ControlFlagFin K else 0)
      in case headers1 of
           None \<Rightarrow> Panics
         | Some h \<Rightarrow> StreamOutput_WriteFrame K (SynStreamFrame flags (Id' s) h) s)"

definition Stream_WriteDataFrame ::
  "Consts \<Rightarrow> 8 word list \<Rightarrow> bool \<Rightarrow> Stream \<Rightarrow> (error option \<times> Stream) outcome" where
  "Stream_WriteDataFrame K d fin s =
     (let flags = (if fin then DataFlagFin K else 0)
      in StreamOutput_WriteFrame K (DataFrame (Id' s) flags d) s)"

definition Stream_Rst :: "Consts \<Rightarrow> 32 word \<Rightarrow> Stream \<Rightarrow> (error option \<times> Stream) outcome" where
  "Stream_Rst K status s = StreamOutput_WriteFrame K (RstStreamFrame 0 (Id' s) status) s"

definition Stream_ProtocolError :: "Consts \<Rightarrow> Stream \<Rightarrow> (error option \<times> Stream) outcome" where
  "Stream_ProtocolError K s = Stream_Rst K (ProtocolError K) s"

text \<open>
  The receive validator calls \<^verbatim>\<open>s.stream.Rst(9)\<close> and
  \<^verbatim>\<open>s.stream.ProtocolError()\<close> as statements: the error they return is dropped,
  the stream they leave is kept.
\<close>

definition StreamInput_WriteFrame ::
  "Consts \<Rightarrow> Frame \<Rightarrow> Stream \<Rightarrow> (error option \<times> Stream) outcome" where
  "StreamInput_WriteFrame K frame s =
     (if HalfStream_Closed InputHalf s then
        (if \<not> isRst frame
         then and_then (Stream_Rst K 9 s) (\<lambda>(e, s'). Returns (None, s'))
         else Returns (None, s))
      else
        (case frame of
           SynStreamFrame fl i h \<Rightarrow>
             if 0 < nFrames (Input s) \<or> local s
             then and_then (Stream_ProtocolError K s) (\<lambda>(e, s'). Returns (None, s'))
             else HalfStream_WriteFrame K InputHalf frame s
         | SynReplyFrame fl i h \<Rightarrow>
             if 0 < nFrames (Input s) \<or> \<not> local s
             then and_then (Stream_ProtocolError K s) (\<lambda>(e, s'). Returns (None, s'))
             else HalfStream_WriteFrame K InputHalf frame s
         | HeadersFrame fl i h \<Rightarrow>
             if nFrames (Input s) = 0
             then and_then (Stream_ProtocolError K s) (\<lambda>(e, s'). Returns (None, s'))
             else HalfStream_WriteFrame K InputHalf frame s
         | DataFrame i fl d \<Rightarrow>
             if nFrames (Input s) = 0
             then and_then (Stream_ProtocolError K s) (\<lambda>(e, s'). Returns (None, s'))
             else HalfStream_WriteFrame K InputHalf frame s
         | RstStreamFrame fl i st \<Rightarrow> HalfStream_WriteFrame K InputHalf frame s
         | _ \<Rightarrow> and_then (Stream_ProtocolError K s) (\<lambda>(e, s'). Returns (None, s'))))"

definition Stream_ReadFrame ::
  "Stream \<Rightarrow> ((Frame option \<times> error option) \<times> Stream) outcome" where
  "Stream_ReadFrame s =
     and_then (ChanFramer_ReadFrame (ChanFramer (Input s)))
       (\<lambda>(r, framer). Returns (r, s\<lparr>Input := (Input s)\<lparr>ChanFramer := framer\<rparr>\<rparr>))"

section \<open>Copying frames\<close>

text \<open>
  \<^verbatim>\<open>Copy\<close> works on any \<^verbatim>\<open>FrameReader\<close> and \<^verbatim>\<open>FrameWriter\<close>. An interface
  value is its method as a function on the state of the object behind it; the writer
  may be \<^verbatim>\<open>nil\<close> (\<open>None\<close>). The loop has no bound of its own: \<open>Copy\<close> is \<open>None\<close>
  where it runs for ever, and \<open>Some\<close> of the error returned with the states the
  writer and the reader are left in.
\<close>

type_synonym 'r FrameReader = "'r \<Rightarrow> (Frame option \<times> error option) \<times> 'r"

type_synonym 'w FrameWriter = "Frame option \<Rightarrow> 'w \<Rightarrow> error option \<times> 'w"

partial_function (option) Copy ::
  "'w FrameWriter option \<Rightarrow> 'r FrameReader \<Rightarrow> 'w \<Rightarrow> 'r \<Rightarrow> (error option \<times> 'w \<times> 'r) option" where
  "Copy w r ws rs =
     (case r rs of ((frame, e), rs') \<Rightarrow>
        if e = Some EOF then Some (None, ws, rs')
        else if e \<noteq> None then Some (e, ws, rs')
        else (case w of
                None \<Rightarrow> Copy w r ws rs'
              | Some write \<Rightarrow>
                  (case write frame ws of (e', ws') \<Rightarrow>
                     if e' \<noteq> None then Some (e', ws', rs')
                     else Copy w r ws' rs')))"

declare Copy.simps [code]

text \<open>
  A reader whose reads give the frames of a list, one by one, and then a terminal
  condition, at every later read.
\<close>

fun script_read :: "(Frame list \<times> error) FrameReader" where
  "script_read ([], t) = ((None, Some t), ([], t))"
| "script_read (frame # rest, t) = ((Some frame, None), (rest, t))"

text \<open>
  What the words of the relay's description say for a present writer: the frames are
  written in order up to the first write that fails; the result is the error of that
  write (none when every write succeeded), the writer it leaves, and the frames that
  were never read.
\<close>

fun forward :: "'w FrameWriter \<Rightarrow> Frame list \<Rightarrow> 'w \<Rightarrow> error option \<times> 'w \<times> Frame list" where
  "forward write [] ws = (None, ws, [])"
| "forward write (frame # rest) ws =
     (case write (Some frame) ws of (e, ws') \<Rightarrow>
        if e \<noteq> None then (e, ws', rest) else forward write rest ws')"

text \<open>A writer that keeps what it is given and never fails.\<close>

definition record_write :: "Frame option list FrameWriter" where
  "record_write frame written = (None, written @ [frame])"

section \<open>Notions used in the statements\<close>

text \<open>
  \<^verbatim>\<open>Error\<close> closes the channel when it records the error, so on every framer
  that has only been given non-nil errors the channel is closed exactly when an error
  is recorded.
\<close>

definition chan_ok :: "ChanFramer \<Rightarrow> bool" where
  "chan_ok framer = (chan_closed (ch framer) = (err framer \<noteq> None))"

definition has_room :: "ChanFramer \<Rightarrow> bool" where
  "has_room framer = (length (chan_buf (ch framer)) < chan_cap)"

text \<open>
  A validator admits a frame when it hands it to \<^verbatim>\<open>HalfStream.WriteFrame\<close>: its
  outcome is then the outcome of that call. On an open half this differs from every
  outcome of a rejection, which returns the stream as it was.
\<close>

definition input_admits :: "Consts \<Rightarrow> Frame \<Rightarrow> Stream \<Rightarrow> bool" where
  "input_admits K frame s =
     (StreamInput_WriteFrame K frame s = HalfStream_WriteFrame K InputHalf frame s)"

definition output_admits :: "Consts \<Rightarrow> Frame \<Rightarrow> Stream \<Rightarrow> bool" where
  "output_admits K frame s =
     (StreamOutput_WriteFrame K frame s = HalfStream_WriteFrame K OutputHalf frame s)"

text \<open>
  Frames arriving one after the other at the receive validator, with nobody reading
  the stream in between.
\<close>

fun feed_input :: "Consts \<Rightarrow> Frame list \<Rightarrow> Stream \<Rightarrow> Stream outcome" where
  "feed_input K [] s = Returns s"
| "feed_input K (frame # rest) s =
     and_then (StreamInput_WriteFrame K frame s) (\<lambda>(e, s'). feed_input K rest s')"

text \<open>
  The frames that open a direction, and the validator of each half.
\<close>

fun is_opening :: "Frame \<Rightarrow> bool" where
  "is_opening (SynStreamFrame fl i h) = True"
| "is_opening (SynReplyFrame fl i h) = True"
| "is_opening (DataFrame i fl d) = False"
| "is_opening (HeadersFrame fl i h) = False"
| "is_opening (RstStreamFrame fl i st) = False"
| "is_opening (NoopFrame fl) = False"
| "is_opening (SettingsFrame fl) = False"
| "is_opening (PingFrame fl) = False"
| "is_opening (GoAwayFrame fl) = False"

fun validator :: "Half \<Rightarrow> Consts \<Rightarrow> Frame \<Rightarrow> Stream \<Rightarrow> (error option \<times> Stream) outcome" where
  "validator InputHalf K frame s = StreamInput_WriteFrame K frame s"
| "validator OutputHalf K frame s = StreamOutput_WriteFrame K frame s"

text \<open>
  The party at the other end of a half takes the frame that is waiting, if there is
  one, with \<^verbatim>\<open>ReadFrame\<close>.
\<close>

definition take_frame :: "Half \<Rightarrow> Stream \<Rightarrow> Stream outcome" where
  "take_frame side s =
     (if chan_buf (ch (ChanFramer (half_of side s))) = [] then Returns s
      else and_then (ChanFramer_ReadFrame (ChanFramer (half_of side s)))
             (\<lambda>(r, framer). Returns (set_half side ((half_of side s)\<lparr>ChanFramer := framer\<rparr>) s)))"

text \<open>
  The number of opening frames admitted when the frames of a list reach the validator
  of a half one after the other, each admitted frame being taken from the queue
  before the next one arrives. A returning call has admitted its frame exactly when
  it has changed the counter of the half. A call that does not return ends the run.
\<close>

fun opening_admitted :: "Half \<Rightarrow> Consts \<Rightarrow> Frame list \<Rightarrow> Stream \<Rightarrow> nat" where
  "opening_admitted side K [] s = 0"
| "opening_admitted side K (frame # rest) s =
     (case validator side K frame s of
        Returns (e, s1) \<Rightarrow>
          (if is_opening frame \<and> nFrames (half_of side s1) \<noteq> nFrames (half_of side s) then 1 else 0) +
          (case take_frame side s1 of
             Returns s2 \<Rightarrow> opening_admitted side K rest s2
           | Blocks \<Rightarrow> 0
           | Panics \<Rightarrow> 0)
      | Blocks \<Rightarrow> 0
      | Panics \<Rightarrow> 0)"

text \<open>
  A writer that takes \<open>n\<close> frames and fails from then on.
\<close>

definition limited_write :: "nat \<Rightarrow> Frame option list FrameWriter" where
  "limited_write n frame written =
     (if length written < n then (None, written @ [frame])
      else (Some (errorString ''full''), written))"

section \<open>Streams and framers of the examples\<close>

text \<open>
  A framer with two frames waiting, and a drained framer on which the error
  \<open>errorString ''reset''\<close> has been recorded.
\<close>

definition closed_framer :: ChanFramer where
  "closed_framer = \<lparr>ch = \<lparr>chan_buf = [], chan_closed = True\<rparr>, err = Some (errorString ''reset'')\<rparr>"

text \<open>
  The new framer after \<^verbatim>\<open>Error(nil)\<close>: the channel is closed and no error is
  recorded.
\<close>

definition nil_closed :: ChanFramer where
  "nil_closed = \<lparr>ch = \<lparr>chan_buf = [], chan_closed = True\<rparr>, err = None\<rparr>"

definition buffered_framer :: ChanFramer where
  "buffered_framer = \<lparr>ch = \<lparr>chan_buf = [PingFrame 0, NoopFrame 0], chan_closed = False\<rparr>, err = None\<rparr>"

text \<open>
  A stream opened by the peer, \<^verbatim>\<open>NewStream(1, false)\<close>, after its receive half
  has admitted: an OpenStream with the fin flag; a Reset; an OpenStream without the
  fin flag. The same stream after its send half has admitted a Reply.
\<close>

definition fin_syn_admitted :: Stream where
  "fin_syn_admitted =
     \<lparr>Id' = 1,
      Input = \<lparr>ChanFramer = \<lparr>ch = \<lparr>chan_buf = [SynStreamFrame 1 1 []], chan_closed = True\<rparr>,
                              err = Some EOF\<rparr>,
               Headers = [], nFrames = 1\<rparr>,
      Output = NewHalfStream, local = False\<rparr>"

definition rst_admitted :: Stream where
  "rst_admitted =
     \<lparr>Id' = 1,
      Input = \<lparr>ChanFramer = \<lparr>ch = \<lparr>chan_buf = [RstStreamFrame 0 1 1], chan_closed = True\<rparr>,
                              err = Some EOF\<rparr>,
               Headers = [], nFrames = 1\<rparr>,
      Output = \<lparr>ChanFramer = \<lparr>ch = \<lparr>chan_buf = [], chan_closed = True\<rparr>, err = Some EOF\<rparr>,
                Headers = [], nFrames = 0\<rparr>,
      local = False\<rparr>"

definition syn_received :: Stream where
  "syn_received =
     \<lparr>Id' = 1,
      Input = \<lparr>ChanFramer = \<lparr>ch = \<lparr>chan_buf = [SynStreamFrame 0 1 []], chan_closed = False\<rparr>,
                              err = None\<rparr>,
               Headers = [], nFrames = 1\<rparr>,
      Output = NewHalfStream, local = False\<rparr>"

definition reply_sent :: Stream where
  "reply_sent =
     \<lparr>Id' = 1,
      Input = NewHalfStream,
      Output = \<lparr>ChanFramer = \<lparr>ch = \<lparr>chan_buf = [SynReplyFrame 0 1 []], chan_closed = False\<rparr>,
                               err = None\<rparr>,
                Headers = [], nFrames = 1\<rparr>,
      local = False\<rparr>"

text \<open>
  The same stream with the frames \<open>q\<close> waiting in its receive queue and the counter
  of its receive half at \<open>n\<close>.
\<close>

definition queued :: "Frame list \<Rightarrow> 32 word \<Rightarrow> Stream" where
  "queued q n =
     \<lparr>Id' = 1,
      Input = \<lparr>ChanFramer = \<lparr>ch = \<lparr>chan_buf = q, chan_closed = False\<rparr>, err = None\<rparr>,
               Headers = [], nFrames = n\<rparr>,
      Output = NewHalfStream, local = False\<rparr>"

section \<open>Auxiliary facts\<close>

lemma Stream_Rst_fails:
  "Stream_Rst K st s =
     Returns (Some (errorString (if HalfStream_Closed OutputHalf s then ''Output closed''
                                 else ''Won't send invalid frame type'')), s)"
  by (simp add: Stream_Rst_def StreamOutput_WriteFrame_def)

lemma half_of_set_half [simp]:
  "half_of side (set_half side h s) = h"
  "half_of (other_half side) (set_half side h s) = half_of (other_half side) s"
  "local (set_half side h s) = local s"
  "Id' (set_half side h s) = Id' s"
  by (cases side; simp)+

lemma set_half_set_half [simp]:
  "set_half side h (set_half side h' s) = set_half side h s"
  by (cases side; simp)

lemma HalfStream_Close_effect:
  "HalfStream_Close side s = Returns s' \<Longrightarrow>
     half_of (other_half side) s' = half_of (other_half side) s \<and>
     local s' = local s \<and> Id' s' = Id' s \<and>
     nFrames (half_of side s') = nFrames (half_of side s) \<and>
     Headers (half_of side s') = Headers (half_of side s) \<and>
     chan_buf (ch (ChanFramer (half_of side s'))) = chan_buf (ch (ChanFramer (half_of side s))) \<and>
     err (ChanFramer (half_of side s')) \<noteq> None \<and>
     (err (ChanFramer (half_of side s)) \<noteq> None \<longrightarrow> s' = s)"
  apply (cases side)
  apply (auto simp: HalfStream_Close_def ChanFramer_Close_def ChanFramer_Error_def chan_close_def
      split: if_splits)
  done


lemma and_then_Returns_iff:
  "and_then m f = Returns y \<longleftrightarrow> (\<exists>x. m = Returns x \<and> f x = Returns y)"
  by (cases m) auto

lemma Stream_Close_effect:
  "Stream_Close s = Returns s' \<Longrightarrow>
     local s' = local s \<and> Id' s' = Id' s \<and>
     nFrames (half_of side s') = nFrames (half_of side s) \<and>
     Headers (half_of side s') = Headers (half_of side s) \<and>
     chan_buf (ch (ChanFramer (half_of side s'))) = chan_buf (ch (ChanFramer (half_of side s))) \<and>
     err (ChanFramer (half_of side s')) \<noteq> None"
  unfolding Stream_Close_def and_then_Returns_iff
  apply (elim exE conjE)
  subgoal for s1
    using HalfStream_Close_effect [of InputHalf s s1] HalfStream_Close_effect [of OutputHalf s1 s']
    by (cases side; cases "err (ChanFramer (Input s1)) = None"; simp)
  done

lemma HalfStream_WriteFrame_admitted:
  assumes "HalfStream_WriteFrame K side frame s = Returns (None, s')"
  shows "nFrames (half_of side s') = nFrames (half_of side s) + 1"
    and "chan_buf (ch (ChanFramer (half_of side s'))) = chan_buf (ch (ChanFramer (half_of side s))) @ [frame]"
    and "Headers (half_of side s') =
           (case GetHeaders frame of None \<Rightarrow> Headers (half_of side s)
            | Some hs \<Rightarrow> UpdateHeaders (Headers (half_of side s)) hs)"
    and "local s' = local s" and "Id' s' = Id' s"
    and "err (ChanFramer (half_of side s)) = None"
    and "GetFinFlag K frame \<Longrightarrow> err (ChanFramer (half_of side s')) \<noteq> None"
    and "\<not> isRst frame \<Longrightarrow> half_of (other_half side) s' = half_of (other_half side) s"
    and "isRst frame \<Longrightarrow> err (ChanFramer (Input s')) \<noteq> None \<and> err (ChanFramer (Output s')) \<noteq> None"
proof -
  let ?h = "half_of side s"
  from assms obtain c where send: "chan_send frame (ch (ChanFramer ?h)) = Returns c"
    and open0: "err (ChanFramer ?h) = None"
    by (auto simp: HalfStream_WriteFrame_def ChanFramer_WriteFrame_def and_then_Returns_iff
        split: if_splits)
  define s2 where "s2 = set_half side (?h\<lparr>ChanFramer := (ChanFramer ?h)\<lparr>ch := c\<rparr>, nFrames := nFrames ?h + 1\<rparr>) s"
  define s4 where "s4 = (\<lambda>s3. case GetHeaders frame of
                       Some headers \<Rightarrow>
                         set_half side
                           ((half_of side s3)\<lparr>Headers := UpdateHeaders (Headers (half_of side s3)) headers\<rparr>) s3
                     | None \<Rightarrow> s3)"
  from assms send open0 obtain s3 where
    fin: "(if GetFinFlag K frame then HalfStream_Close side s2 else Returns s2) = Returns s3"
    and rst: "(if isRst frame then Stream_Close (s4 s3) else Returns (s4 s3)) = Returns s'"
    by (auto simp: HalfStream_WriteFrame_def ChanFramer_WriteFrame_def and_then_Returns_iff
        s2_def s4_def Let_def split: if_splits)
  have c: "chan_buf c = chan_buf (ch (ChanFramer ?h)) @ [frame]"
    using send by (auto simp: chan_send_def split: if_splits)
  have s2: "nFrames (half_of side s2) = nFrames ?h + 1" "Headers (half_of side s2) = Headers ?h"
    "chan_buf (ch (ChanFramer (half_of side s2))) = chan_buf (ch (ChanFramer ?h)) @ [frame]"
    "local s2 = local s" "Id' s2 = Id' s" "half_of (other_half side) s2 = half_of (other_half side) s"
    by (simp_all add: s2_def c)
  have s3: "nFrames (half_of side s3) = nFrames ?h + 1" "Headers (half_of side s3) = Headers ?h"
    "chan_buf (ch (ChanFramer (half_of side s3))) = chan_buf (ch (ChanFramer ?h)) @ [frame]"
    "local s3 = local s" "Id' s3 = Id' s" "half_of (other_half side) s3 = half_of (other_half side) s"
    "GetFinFlag K frame \<Longrightarrow> err (ChanFramer (half_of side s3)) \<noteq> None"
    using fin s2 HalfStream_Close_effect [of side s2 s3] by (auto split: if_splits)
  have s4: "nFrames (half_of side (s4 s3)) = nFrames ?h + 1"
    "Headers (half_of side (s4 s3)) =
           (case GetHeaders frame of None \<Rightarrow> Headers ?h
            | Some hs \<Rightarrow> UpdateHeaders (Headers ?h) hs)"
    "chan_buf (ch (ChanFramer (half_of side (s4 s3)))) = chan_buf (ch (ChanFramer ?h)) @ [frame]"
    "local (s4 s3) = local s" "Id' (s4 s3) = Id' s"
    "half_of (other_half side) (s4 s3) = half_of (other_half side) s"
    "GetFinFlag K frame \<Longrightarrow> err (ChanFramer (half_of side (s4 s3))) \<noteq> None"
    using s3 by (auto simp: s4_def split: option.splits)
  show "nFrames (half_of side s') = nFrames (half_of side s) + 1"
    using rst s4 Stream_Close_effect [of "s4 s3" s' side] by (auto split: if_splits)
  show "chan_buf (ch (ChanFramer (half_of side s'))) = chan_buf (ch (ChanFramer (half_of side s))) @ [frame]"
    using rst s4 Stream_Close_effect [of "s4 s3" s' side] by (auto split: if_splits)
  show "Headers (half_of side s') =
           (case GetHeaders frame of None \<Rightarrow> Headers (half_of side s)
            | Some hs \<Rightarrow> UpdateHeaders (Headers (half_of side s)) hs)"
    using rst s4 Stream_Close_effect [of "s4 s3" s' side] by (auto split: if_splits)
  show "local s' = local s" "Id' s' = Id' s"
    using rst s4 Stream_Close_effect [of "s4 s3" s' side] by (auto split: if_splits)
  show "err (ChanFramer (half_of side s)) = None" by (rule open0)
  show "GetFinFlag K frame \<Longrightarrow> err (ChanFramer (half_of side s')) \<noteq> None"
    using rst s4 Stream_Close_effect [of "s4 s3" s' side] by (auto split: if_splits)
  show "\<not> isRst frame \<Longrightarrow> half_of (other_half side) s' = half_of (other_half side) s"
    using rst s4 by (auto split: if_splits)
  show "isRst frame \<Longrightarrow> err (ChanFramer (Input s')) \<noteq> None \<and> err (ChanFramer (Output s')) \<noteq> None"
    using rst Stream_Close_effect [of "s4 s3" s' InputHalf] Stream_Close_effect [of "s4 s3" s' OutputHalf]
    by (auto split: if_splits)
qed


lemma HalfStream_Close_returns:
  "err (ChanFramer (half_of side s)) = None \<longrightarrow> \<not> chan_closed (ch (ChanFramer (half_of side s)))
   \<Longrightarrow> \<exists>s'. HalfStream_Close side s = Returns s'"
  by (auto simp: HalfStream_Close_def ChanFramer_Close_def ChanFramer_Error_def chan_close_def)

lemma HalfStream_Close_chan_closed:
  "HalfStream_Close side s = Returns s' \<Longrightarrow>
     chan_closed (ch (ChanFramer (half_of side s'))) = 
       (err (ChanFramer (half_of side s)) = None \<or> chan_closed (ch (ChanFramer (half_of side s))))"
  by (cases side)
    (auto simp: HalfStream_Close_def ChanFramer_Close_def ChanFramer_Error_def chan_close_def
      split: if_splits)

lemma Stream_Close_returns:
  assumes "err (ChanFramer (Input s)) = None \<longrightarrow> \<not> chan_closed (ch (ChanFramer (Input s)))"
    and "err (ChanFramer (Output s)) = None \<longrightarrow> \<not> chan_closed (ch (ChanFramer (Output s)))"
  shows "\<exists>s'. Stream_Close s = Returns s'"
proof -
  from assms(1) obtain s1 where s1: "HalfStream_Close InputHalf s = Returns s1"
    using HalfStream_Close_returns [of InputHalf s] by auto
  have "Output s1 = Output s"
    using HalfStream_Close_effect [OF s1] by simp
  with assms(2) obtain s2 where "HalfStream_Close OutputHalf s1 = Returns s2"
    using HalfStream_Close_returns [of OutputHalf s1] by auto
  with s1 show ?thesis by (simp add: Stream_Close_def)
qed

lemma HalfStream_WriteFrame_returns:
  assumes open0: "err (ChanFramer (half_of side s)) = None"
    and notclosed: "\<not> chan_closed (ch (ChanFramer (half_of side s)))"
    and room: "has_room (ChanFramer (half_of side s))"
    and other: "isRst frame \<Longrightarrow> chan_ok (ChanFramer (half_of (other_half side) s))"
  shows "\<exists>s'. HalfStream_WriteFrame K side frame s = Returns (None, s')"
proof -
  let ?h = "half_of side s"
  define c where "c = (ch (ChanFramer ?h))\<lparr>chan_buf := chan_buf (ch (ChanFramer ?h)) @ [frame]\<rparr>"
  have send: "ChanFramer_WriteFrame frame (ChanFramer ?h) = Returns (None, (ChanFramer ?h)\<lparr>ch := c\<rparr>)"
    using open0 notclosed room
    by (simp add: ChanFramer_WriteFrame_def chan_send_def has_room_def c_def)
  define s2 where "s2 = set_half side (?h\<lparr>ChanFramer := (ChanFramer ?h)\<lparr>ch := c\<rparr>, nFrames := nFrames ?h + 1\<rparr>) s"
  define s4 where "s4 = (\<lambda>s3. case GetHeaders frame of
                       Some headers \<Rightarrow>
                         set_half side
                           ((half_of side s3)\<lparr>Headers := UpdateHeaders (Headers (half_of side s3)) headers\<rparr>) s3
                     | None \<Rightarrow> s3)"
  have eq: "HalfStream_WriteFrame K side frame s =
     and_then (if GetFinFlag K frame then HalfStream_Close side s2 else Returns s2) (\<lambda>s3.
       and_then (if isRst frame then Stream_Close (s4 s3) else Returns (s4 s3)) (\<lambda>s5. Returns (None, s5)))"
    by (simp add: HalfStream_WriteFrame_def send s2_def s4_def Let_def)
  have s2: "err (ChanFramer (half_of side s2)) = None"
    "\<not> chan_closed (ch (ChanFramer (half_of side s2)))"
    "half_of (other_half side) s2 = half_of (other_half side) s"
    using open0 notclosed by (simp_all add: s2_def c_def)
  obtain s3 where fin: "(if GetFinFlag K frame then HalfStream_Close side s2 else Returns s2) = Returns s3"
    using HalfStream_Close_returns [of side s2] s2 by (cases "GetFinFlag K frame") auto
  have s3: "half_of (other_half side) s3 = half_of (other_half side) s"
    "err (ChanFramer (half_of side s3)) = None \<longrightarrow> \<not> chan_closed (ch (ChanFramer (half_of side s3)))"
    using fin s2 HalfStream_Close_effect [of side s2 s3] HalfStream_Close_chan_closed [of side s2 s3]
    by (auto split: if_splits)
  have s4: "half_of (other_half side) (s4 s3) = half_of (other_half side) s"
    "err (ChanFramer (half_of side (s4 s3))) = None \<longrightarrow> \<not> chan_closed (ch (ChanFramer (half_of side (s4 s3))))"
    using s3 by (auto simp: s4_def split: option.splits)
  have "\<exists>s5. (if isRst frame then Stream_Close (s4 s3) else Returns (s4 s3)) = Returns s5"
  proof (cases "isRst frame")
    case True
    from other [OF True] s4(1)
    have "err (ChanFramer (half_of (other_half side) (s4 s3))) = None \<longrightarrow>
          \<not> chan_closed (ch (ChanFramer (half_of (other_half side) (s4 s3))))"
      by (simp add: chan_ok_def)
    with s4(2) have "\<exists>s5. Stream_Close (s4 s3) = Returns s5"
      by (cases side) (auto intro: Stream_Close_returns)
    with True show ?thesis by simp
  next
    case False
    then show ?thesis by simp
  qed
  then obtain s5 where "(if isRst frame then Stream_Close (s4 s3) else Returns (s4 s3)) = Returns s5" ..
  with fin eq show ?thesis by simp
qed

lemma HalfStream_WriteFrame_open_result:
  assumes "err (ChanFramer (half_of side s)) = None"
    and "HalfStream_WriteFrame K side frame s = Returns (e, s')"
  shows "e = None"
  using assms
  by (auto simp: HalfStream_WriteFrame_def ChanFramer_WriteFrame_def and_then_Returns_iff Let_def
      split: if_splits)

lemma HalfStream_WriteFrame_changes:
  "HalfStream_WriteFrame K side frame s \<noteq> Returns (None, s)"
proof
  assume "HalfStream_WriteFrame K side frame s = Returns (None, s)"
  from HalfStream_WriteFrame_admitted(1) [OF this] show False by simp
qed

lemma NewStream_fields [simp]:
  "Id' (NewStream i l) = i" "local (NewStream i l) = l"
  "Input (NewStream i l) = NewHalfStream" "Output (NewStream i l) = NewHalfStream"
  by (simp_all add: NewStream_def)

lemma NewHalfStream_fields [simp]:
  "nFrames NewHalfStream = 0" "Headers NewHalfStream = []"
  "err (ChanFramer NewHalfStream) = None"
  "chan_closed (ch (ChanFramer NewHalfStream)) = False"
  "chan_buf (ch (ChanFramer NewHalfStream)) = []"
  "chan_ok (ChanFramer NewHalfStream)"
  "has_room (ChanFramer NewHalfStream)"
  by (simp_all add: NewHalfStream_def NewChanFramer_def chan_ok_def has_room_def chan_cap_def)

lemma NewStream_open [simp]: "\<not> HalfStream_Closed side (NewStream i l)"
  by (cases side) (simp_all add: HalfStream_Closed_def ChanFramer_Closed_def)

lemma first_frame_on_new_stream:
  assumes "GetHeaders frame = Some []"
  shows "\<exists>s'. HalfStream_WriteFrame K OutputHalf frame (NewStream i l) = Returns (None, s') \<and>
           chan_buf (ch (ChanFramer (Output s'))) = [frame] \<and> Headers (Output s') = []"
proof -
  obtain s' where s': "HalfStream_WriteFrame K OutputHalf frame (NewStream i l) = Returns (None, s')"
    using HalfStream_WriteFrame_returns [of OutputHalf "NewStream i l" frame K] by auto
  from HalfStream_WriteFrame_admitted(2,3) [OF s'] assms
  have "chan_buf (ch (ChanFramer (Output s'))) = [frame]" "Headers (Output s') = []"
    by (simp_all add: UpdateHeaders_def)
  with s' show ?thesis by blast
qed

lemma Copy_nil_writer:
  "Copy None script_read ws (fs, t) = Some (if t = EOF then None else Some t, ws, ([], t))"
proof (induction fs)
  case Nil
  show ?case by (subst Copy.simps) simp
next
  case (Cons f fs)
  then show ?case by (subst Copy.simps) simp
qed

lemma Copy_writer:
  "Copy (Some write) script_read ws (fs, t) =
     Some (case forward write fs ws of
             (None, ws', rest) \<Rightarrow> (if t = EOF then None else Some t, ws', ([], t))
           | (Some e, ws', rest) \<Rightarrow> (Some e, ws', (rest, t)))"
proof (induction fs arbitrary: ws t)
  case Nil
  show ?case by (subst Copy.simps) simp
next
  case (Cons f fs)
  show ?case
    by (subst Copy.simps) (simp add: Cons.IH split: prod.splits option.splits)
qed

lemma forward_record_write:
  "forward record_write fs written = (None, written @ map Some fs, [])"
  by (induction fs arbitrary: written) (simp_all add: record_write_def)

lemma HalfStream_WriteFrame_stays_open:
  assumes "HalfStream_WriteFrame K side frame s = Returns (None, s')"
    and "\<not> GetFinFlag K frame" and "\<not> isRst frame"
  shows "err (ChanFramer (half_of side s')) = None"
  using assms
  by (cases side)
    (auto simp: HalfStream_WriteFrame_def ChanFramer_WriteFrame_def and_then_Returns_iff Let_def
      chan_send_def split: if_splits option.splits)

lemma Stream_ProtocolError_fails:
  "Stream_ProtocolError K s =
     Returns (Some (errorString (if HalfStream_Closed OutputHalf s then ''Output closed''
                                 else ''Won't send invalid frame type'')), s)"
  by (simp add: Stream_ProtocolError_def Stream_Rst_fails)

lemma input_drops [simp]:
  "and_then (Stream_ProtocolError K s) (\<lambda>(e, s'). Returns (None, s')) = Returns (None, s)"
  "and_then (Stream_Rst K st s) (\<lambda>(e, s'). Returns (None, s')) = Returns (None, s)"
  by (simp_all add: Stream_ProtocolError_fails Stream_Rst_fails)

lemma HalfStream_WriteFrame_open_no_error:
  "\<not> HalfStream_Closed side s \<Longrightarrow> HalfStream_WriteFrame K side frame s \<noteq> Returns (Some e, s')"
  using HalfStream_WriteFrame_open_result [of side s K frame "Some e" s']
  by (auto simp: HalfStream_Closed_def ChanFramer_Closed_def)

lemma word_gt_0_iff: "0 < (n :: 32 word) \<longleftrightarrow> n \<noteq> 0"
  by (rule word_neq_0_conv [symmetric])

lemma HalfStream_WriteFrame_error:
  "HalfStream_WriteFrame K side frame s = Returns (Some e, s') \<Longrightarrow> s' = s"
  by (cases side)
    (auto simp: HalfStream_WriteFrame_def ChanFramer_WriteFrame_def and_then_Returns_iff Let_def
      split: if_splits)

lemma HalfStream_WriteFrame_local:
  "HalfStream_WriteFrame K side frame s = Returns (e, s') \<Longrightarrow> local s' = local s"
  using HalfStream_WriteFrame_admitted(4) [of K side frame s s']
    HalfStream_WriteFrame_error [of K side frame s _ s']
  by (cases e) auto

lemma StreamInput_WriteFrame_cases:
  "StreamInput_WriteFrame K frame s = HalfStream_WriteFrame K InputHalf frame s \<or>
   StreamInput_WriteFrame K frame s = Returns (None, s)"
  by (cases frame) (auto simp: StreamInput_WriteFrame_def)

lemma StreamOutput_WriteFrame_cases:
  "StreamOutput_WriteFrame K frame s = HalfStream_WriteFrame K OutputHalf frame s \<or>
   (\<exists>e. StreamOutput_WriteFrame K frame s = Returns (Some e, s))"
  by (cases frame) (auto simp: StreamOutput_WriteFrame_def)

lemma HalfStream_WriteFrame_err_after:
  "HalfStream_WriteFrame K side frame s = Returns (None, s') \<Longrightarrow>
     err (ChanFramer (half_of side s')) = None \<or> err (ChanFramer (half_of side s')) = Some EOF"
  by (cases side)
    (auto simp: HalfStream_WriteFrame_def ChanFramer_WriteFrame_def and_then_Returns_iff Let_def
      chan_send_def HalfStream_Close_def Stream_Close_def ChanFramer_Close_def ChanFramer_Error_def
      chan_close_def split: if_splits option.splits)

lemma HalfStream_WriteFrame_closed:
  "HalfStream_Closed side s \<Longrightarrow>
     HalfStream_WriteFrame K side frame s = Returns (err (ChanFramer (half_of side s)), s)"
  by (cases side)
    (auto simp: HalfStream_WriteFrame_def ChanFramer_WriteFrame_def HalfStream_Closed_def
      ChanFramer_Closed_def)

lemma no_second_opening_frame_in:
  assumes adm: "HalfStream_WriteFrame K InputHalf frame s = Returns (None, s')"
    and zero: "nFrames (Input s) = 0"
  shows "\<not> input_admits K (SynStreamFrame fl i h) s'" "\<not> input_admits K (SynReplyFrame fl i h) s'"
proof -
  have n: "nFrames (Input s') = 1"
    using HalfStream_WriteFrame_admitted(1) [OF adm] zero by simp
  have c: "HalfStream_Closed InputHalf s' \<Longrightarrow>
      StreamInput_WriteFrame K f s' \<noteq> HalfStream_WriteFrame K InputHalf f s'" for f
    using StreamInput_WriteFrame_cases [of K f s']
    by (auto simp: HalfStream_WriteFrame_closed HalfStream_Closed_def ChanFramer_Closed_def
        StreamInput_WriteFrame_def)
  have neq: "Returns (None, s') \<noteq> HalfStream_WriteFrame K InputHalf f s'" for f
    using HalfStream_WriteFrame_changes [of K InputHalf f s'] by metis
  show "\<not> input_admits K (SynStreamFrame fl i h) s'"
    using c [of "SynStreamFrame fl i h"] n neq
    by (cases "HalfStream_Closed InputHalf s'")
      (auto simp: input_admits_def StreamInput_WriteFrame_def)
  show "\<not> input_admits K (SynReplyFrame fl i h) s'"
    using c [of "SynReplyFrame fl i h"] n neq
    by (cases "HalfStream_Closed InputHalf s'")
      (auto simp: input_admits_def StreamInput_WriteFrame_def)
qed

lemma no_second_opening_frame_out:
  assumes adm: "HalfStream_WriteFrame K OutputHalf frame s = Returns (None, s')"
    and zero: "nFrames (Output s) = 0"
  shows "\<not> output_admits K (SynStreamFrame fl i h) s'" "\<not> output_admits K (SynReplyFrame fl i h) s'"
proof -
  have n: "nFrames (Output s') = 1"
    using HalfStream_WriteFrame_admitted(1) [OF adm] zero by simp
  have e: "err (ChanFramer (Output s')) = None \<or> err (ChanFramer (Output s')) = Some EOF"
    using HalfStream_WriteFrame_err_after [OF adm] by simp
  have c: "HalfStream_Closed OutputHalf s' \<Longrightarrow>
      StreamOutput_WriteFrame K f s' \<noteq> HalfStream_WriteFrame K OutputHalf f s'" for f
    using e
    by (auto simp: HalfStream_WriteFrame_closed HalfStream_Closed_def ChanFramer_Closed_def
        StreamOutput_WriteFrame_def)
  have neq: "Returns (Some x, s') \<noteq> HalfStream_WriteFrame K OutputHalf f s'"
    if "\<not> HalfStream_Closed OutputHalf s'" for f x
    using HalfStream_WriteFrame_open_no_error [OF that, of K f x s'] by metis
  show "\<not> output_admits K (SynStreamFrame fl i h) s'"
    using c [of "SynStreamFrame fl i h"] n neq
    by (cases "HalfStream_Closed OutputHalf s'")
      (auto simp: output_admits_def StreamOutput_WriteFrame_def)
  show "\<not> output_admits K (SynReplyFrame fl i h) s'"
    using c [of "SynReplyFrame fl i h"] n neq
    by (cases "HalfStream_Closed OutputHalf s'")
      (auto simp: output_admits_def StreamOutput_WriteFrame_def)
qed

lemma values_of_append_value:
  "values_of (append_value key v h) k = (if k = key then values_of h k @ [v] else values_of h k)"
  by (induction h) (auto simp: values_of_def)

lemma values_of_Header_Add:
  "values_of (Header_Add h key v) k =
     (if CanonicalMIMEHeaderKey key = k then values_of h k @ [v] else values_of h k)"
  by (auto simp: Header_Add_def values_of_append_value)

lemma values_of_add_all:
  "values_of (fold (\<lambda>v h'. Header_Add h' key v) vals h) k =
     (if CanonicalMIMEHeaderKey key = k then values_of h k @ vals else values_of h k)"
  by (induction vals arbitrary: h) (auto simp: values_of_Header_Add)

lemma values_of_UpdateHeaders:
  "values_of (UpdateHeaders h new) k =
     values_of h k @ concat (map snd (filter (\<lambda>(key, vals). CanonicalMIMEHeaderKey key = k) new))"
  unfolding UpdateHeaders_def
  by (induction new arbitrary: h) (auto simp: values_of_add_all)

lemma three_frames_fifo:
  "and_then (ChanFramer_WriteFrame F1 NewChanFramer) (\<lambda>(e1, a).
   and_then (ChanFramer_WriteFrame F2 a) (\<lambda>(e2, b).
   and_then (ChanFramer_WriteFrame F3 b) (\<lambda>(e3, c).
   and_then (ChanFramer_ReadFrame c) (\<lambda>(r1, d).
   and_then (ChanFramer_ReadFrame d) (\<lambda>(r2, g).
   and_then (ChanFramer_ReadFrame g) (\<lambda>(r3, h).
     Returns ([e1, e2, e3], [r1, r2, r3], h))))))) =
   Returns ([None, None, None], [(Some F1, None), (Some F2, None), (Some F3, None)], NewChanFramer)"
  by (simp add: ChanFramer_WriteFrame_def ChanFramer_ReadFrame_def chan_send_def chan_recv_def
      NewChanFramer_def chan_cap_def)

lemma queued_data:
  assumes "length q < 4096" and "n \<noteq> 0"
  shows "StreamInput_WriteFrame K (DataFrame i 0 d) (queued q n) =
           Returns (None, queued (q @ [DataFrame i 0 d]) (n + 1))"
  using assms
  by (simp add: StreamInput_WriteFrame_def HalfStream_Closed_def ChanFramer_Closed_def queued_def
      HalfStream_WriteFrame_def ChanFramer_WriteFrame_def chan_send_def chan_cap_def)

lemma feed_data:
  "length q + k \<le> 4096 \<Longrightarrow> 0 < m \<Longrightarrow> m + k < 2 ^ 32 \<Longrightarrow>
   feed_input K (replicate k (DataFrame i 0 d)) (queued q (of_nat m)) =
     Returns (queued (q @ replicate k (DataFrame i 0 d)) (of_nat (m + k)))"
proof (induction k arbitrary: q m)
  case 0
  then show ?case by simp
next
  case (Suc k)
  have nz: "(of_nat m :: 32 word) \<noteq> 0"
  proof
    assume "(of_nat m :: 32 word) = 0"
    then have "2 ^ 32 dvd m" by (simp add: word_of_nat_eq_0_iff)
    then have "2 ^ 32 \<le> m" using Suc.prems(2) by (rule dvd_imp_le)
    with Suc.prems(3) show False by simp
  qed
  have step: "StreamInput_WriteFrame K (DataFrame i 0 d) (queued q (of_nat m)) =
           Returns (None, queued (q @ [DataFrame i 0 d]) (of_nat (Suc m)))"
    using queued_data [of q "of_nat m" K i d] nz Suc.prems by (simp add: add.commute)
  show ?case
    using Suc.IH [of "q @ [DataFrame i 0 d]" "Suc m"] Suc.prems
    by (simp add: step replicate_app_Cons_same)
qed

lemma queued_full_blocks:
  "length q = 4096 \<Longrightarrow> n \<noteq> 0 \<Longrightarrow>
   StreamInput_WriteFrame K (DataFrame i 0 d) (queued q n) = Blocks"
  by (simp add: StreamInput_WriteFrame_def HalfStream_Closed_def ChanFramer_Closed_def queued_def
      HalfStream_WriteFrame_def ChanFramer_WriteFrame_def chan_send_def chan_cap_def)

lemma take_frame_nFrames:
  "take_frame side s = Returns s' \<Longrightarrow> nFrames (half_of side s') = nFrames (half_of side s)"
  by (cases side)
    (auto simp: take_frame_def and_then_Returns_iff ChanFramer_ReadFrame_def split: if_splits)

lemma validator_cases:
  "validator side K frame s = HalfStream_WriteFrame K side frame s \<or>
   (\<exists>e. validator side K frame s = Returns (e, s))"
  using StreamInput_WriteFrame_cases [of K frame s] StreamOutput_WriteFrame_cases [of K frame s]
  by (cases side) auto

lemma validator_counter:
  assumes "validator side K frame s = Returns (e, s1)"
  shows "nFrames (half_of side s1) = nFrames (half_of side s) \<or>
         nFrames (half_of side s1) = nFrames (half_of side s) + 1"
proof -
  from validator_cases [of side K frame s] show ?thesis
  proof
    assume "validator side K frame s = HalfStream_WriteFrame K side frame s"
    with assms have r: "HalfStream_WriteFrame K side frame s = Returns (e, s1)" by simp
    show ?thesis
    proof (cases e)
      case None
      with r show ?thesis using HalfStream_WriteFrame_admitted(1) [of K side frame s s1] by simp
    next
      case (Some x)
      with r show ?thesis using HalfStream_WriteFrame_error [of K side frame s x s1] by simp
    qed
  next
    assume "\<exists>e. validator side K frame s = Returns (e, s)"
    with assms show ?thesis by auto
  qed
qed

lemma opening_needs_zero:
  assumes "is_opening frame" and "nFrames (half_of side s) \<noteq> 0"
    and "validator side K frame s = Returns (e, s1)"
  shows "s1 = s"
  using assms
  by (cases side; cases frame)
    (auto simp: StreamInput_WriteFrame_def StreamOutput_WriteFrame_def word_gt_0_iff split: if_splits)

lemma opening_admitted_bound:
  "nFrames (half_of side s) = of_nat c \<Longrightarrow> c + length fs \<le> 2 ^ 32 \<Longrightarrow>
   opening_admitted side K fs s \<le> (if c = 0 then 1 else 0)"
proof (induction fs arbitrary: s c)
  case Nil
  show ?case by simp
next
  case (Cons f fs)
  show ?case
  proof (cases "validator side K f s")
    case (Returns r)
    obtain e s1 where r: "r = (e, s1)" by (cases r)
    have v: "validator side K f s = Returns (e, s1)" using Returns r by simp
    let ?first = "if is_opening f \<and> nFrames (half_of side s1) \<noteq> nFrames (half_of side s) then 1 else 0 :: nat"
    let ?rest = "case take_frame side s1 of Returns s2 \<Rightarrow> opening_admitted side K fs s2 | Blocks \<Rightarrow> 0 | Panics \<Rightarrow> 0"
    have eq: "opening_admitted side K (f # fs) s = ?first + ?rest"
      by (simp add: v)
    have cz: "(of_nat c :: 32 word) = 0 \<longleftrightarrow> c = 0"
    proof
      assume "(of_nat c :: 32 word) = 0"
      then have d: "2 ^ 32 dvd c" by (simp add: word_of_nat_eq_0_iff)
      show "c = 0"
      proof (rule ccontr)
        assume "c \<noteq> 0"
        then have "2 ^ 32 \<le> c" using d by (simp add: dvd_imp_le)
        with Cons.prems(2) show False by simp
      qed
    qed simp
    consider (same) "nFrames (half_of side s1) = nFrames (half_of side s)"
      | (counted) "nFrames (half_of side s1) = nFrames (half_of side s) + 1"
        "nFrames (half_of side s1) \<noteq> nFrames (half_of side s)"
      using validator_counter [OF v] by auto
    then show ?thesis
    proof cases
      case same
      have "?rest \<le> (if c = 0 then 1 else 0)"
      proof (cases "take_frame side s1")
        case (Returns s2)
        have "nFrames (half_of side s2) = of_nat c"
          using take_frame_nFrames [OF Returns] same Cons.prems(1) by simp
        then have "opening_admitted side K fs s2 \<le> (if c = 0 then 1 else 0)"
          using Cons.IH [of s2 c] Cons.prems(2) by simp
        with Returns show ?thesis by simp
      qed simp_all
      with same eq show ?thesis by simp
    next
      case counted
      have first: "?first \<le> (if c = 0 then 1 else 0)"
      proof (cases "is_opening f")
        case True
        have "nFrames (half_of side s) = 0"
          using opening_needs_zero [OF True _ v] counted(2) by auto
        with Cons.prems(1) cz have "c = 0" by simp
        then show ?thesis by simp
      qed simp
      have "?rest = 0"
      proof (cases "take_frame side s1")
        case (Returns s2)
        have "nFrames (half_of side s2) = of_nat (Suc c)"
          using take_frame_nFrames [OF Returns] counted(1) Cons.prems(1) by simp
        then have "opening_admitted side K fs s2 \<le> (if Suc c = 0 then 1 else 0)"
          using Cons.IH [of s2 "Suc c"] Cons.prems(2) by simp
        with Returns show ?thesis by simp
      qed simp_all
      with first eq show ?thesis by simp
    qed
  qed simp_all
qed

lemma take_frame_queued:
  "take_frame InputHalf (queued [frame] n) = Returns (queued [] n)"
  by (simp add: take_frame_def queued_def ChanFramer_ReadFrame_def chan_recv_def)

lemma data_run:
  "0 < m \<Longrightarrow> m + k \<le> 2 ^ 32 \<Longrightarrow>
   opening_admitted InputHalf K (replicate k (DataFrame i 0 d) @ rest) (queued [] (of_nat m)) =
     opening_admitted InputHalf K rest (queued [] (of_nat (m + k)))"
proof (induction k arbitrary: m)
  case 0
  show ?case by simp
next
  case (Suc k)
  have nz: "(of_nat m :: 32 word) \<noteq> 0"
  proof
    assume "(of_nat m :: 32 word) = 0"
    then have "2 ^ 32 dvd m" by (simp add: word_of_nat_eq_0_iff)
    then have "2 ^ 32 \<le> m" using Suc.prems(1) by (rule dvd_imp_le)
    with Suc.prems(2) show False by simp
  qed
  have step: "StreamInput_WriteFrame K (DataFrame i 0 d) (queued [] (of_nat m)) =
           Returns (None, queued [DataFrame i 0 d] (of_nat (Suc m)))"
    using queued_data [of "[]" "of_nat m" K i d] nz by (simp add: add.commute)
  have n: "nFrames (Input (queued [] (of_nat m))) = of_nat m"
    "nFrames (Input (queued [DataFrame i 0 d] (of_nat (Suc m)))) = of_nat (Suc m)"
    by (simp_all add: queued_def)
  show ?case
    using Suc.IH [of "Suc m"] Suc.prems
    by (simp add: step take_frame_queued)
qed

lemma chan_ok_preserved:
  "chan_ok NewChanFramer"
  "chan_ok f \<Longrightarrow> ChanFramer_WriteFrame x f = Returns (e1, f') \<Longrightarrow> chan_ok f'"
  "chan_ok f \<Longrightarrow> ChanFramer_ReadFrame f = Returns (r, f') \<Longrightarrow> chan_ok f'"
  "chan_ok f \<Longrightarrow> ChanFramer_Error (Some e) f = Returns f' \<Longrightarrow> chan_ok f'"
  "chan_ok f \<Longrightarrow> ChanFramer_Close f = Returns f' \<Longrightarrow> chan_ok f'"
  by (auto simp: chan_ok_def NewChanFramer_def ChanFramer_WriteFrame_def ChanFramer_ReadFrame_def
      ChanFramer_Error_def ChanFramer_Close_def chan_send_def chan_recv_def chan_close_def
      and_then_Returns_iff split: if_splits list.splits dest: sym)

lemma closed_not_admitted:
  "HalfStream_Closed InputHalf s \<Longrightarrow> \<not> input_admits K frame s"
  by (auto simp: input_admits_def StreamInput_WriteFrame_def HalfStream_WriteFrame_closed
      HalfStream_Closed_def ChanFramer_Closed_def)

lemma admitted_on_full_queue:
  assumes "input_admits K frame s" and "chan_ok (ChanFramer (Input s))"
    and "\<not> has_room (ChanFramer (Input s))"
  shows "StreamInput_WriteFrame K frame s = Blocks"
proof -
  have o: "\<not> HalfStream_Closed InputHalf s"
    using assms(1) closed_not_admitted by blast
  then have "err (ChanFramer (Input s)) = None" "\<not> chan_closed (ch (ChanFramer (Input s)))"
    using assms(2) by (simp_all add: HalfStream_Closed_def ChanFramer_Closed_def chan_ok_def)
  then have "HalfStream_WriteFrame K InputHalf frame s = Blocks"
    using assms(3)
    by (simp add: HalfStream_WriteFrame_def ChanFramer_WriteFrame_def chan_send_def has_room_def)
  with assms(1) show ?thesis by (simp add: input_admits_def)
qed

section \<open>The claims\<close>

text \<open>
  Claim C1, at the inputs where the code departs from it. A Data frame arrives first
  on a new stream opened by the peer (an open half, an illegal frame), and a Data
  frame arrives after an OpenStream with the fin flag has closed the receive half.
  In both cases the validator returns nil and the stream is exactly as before: the
  counter and the headers are unchanged, as the claim says, but the send queue is
  still empty. The Reset that \<^verbatim>\<open>ProtocolError\<close> and \<^verbatim>\<open>Rst(9)\<close> build is refused
  by the send validator, and the receive validator drops that error.
\<close>

theorem dropped_frames_queue_no_reset:
  "StreamInput_WriteFrame draft_consts (DataFrame 1 0 []) (NewStream 1 False) =
     Returns (None, NewStream 1 False) \<and>
   chan_buf (ch (ChanFramer (Output (NewStream 1 False)))) = [] \<and>
   HalfStream_Closed InputHalf fin_syn_admitted \<and>
   StreamInput_WriteFrame draft_consts (DataFrame 1 0 []) fin_syn_admitted =
     Returns (None, fin_syn_admitted) \<and>
   chan_buf (ch (ChanFramer (Output fin_syn_admitted))) = [] \<and>
   Stream_ProtocolError draft_consts (NewStream 1 False) =
     Returns (Some (errorString ''Won't send invalid frame type''), NewStream 1 False) \<and>
   Stream_Rst draft_consts 9 fin_syn_admitted =
     Returns (Some (errorString ''Won't send invalid frame type''), fin_syn_admitted)"
  by code_simp

text \<open>
  Claim C2. In every stream state the send validator rejects a Reset, Noop, Settings,
  Ping or GoAway frame: it returns an error (``Output closed'' on a closed send half,
  ``Won't send invalid frame type'' on an open one) and the stream as it was, so
  nothing is queued. \<^verbatim>\<open>Stream.Rst\<close> and \<^verbatim>\<open>Stream.ProtocolError\<close> go through
  it with a Reset frame and therefore always return that error and never queue a
  Reset on the send half.
\<close>

theorem send_validator_rejects_reset:
  "StreamOutput_WriteFrame K (RstStreamFrame fl i st) s =
     Returns (Some (errorString (if HalfStream_Closed OutputHalf s then ''Output closed''
                                 else ''Won't send invalid frame type'')), s) \<and>
   StreamOutput_WriteFrame K (NoopFrame fl) s =
     Returns (Some (errorString (if HalfStream_Closed OutputHalf s then ''Output closed''
                                 else ''Won't send invalid frame type'')), s) \<and>
   StreamOutput_WriteFrame K (SettingsFrame fl) s =
     Returns (Some (errorString (if HalfStream_Closed OutputHalf s then ''Output closed''
                                 else ''Won't send invalid frame type'')), s) \<and>
   StreamOutput_WriteFrame K (PingFrame fl) s =
     Returns (Some (errorString (if HalfStream_Closed OutputHalf s then ''Output closed''
                                 else ''Won't send invalid frame type'')), s) \<and>
   StreamOutput_WriteFrame K (GoAwayFrame fl) s =
     Returns (Some (errorString (if HalfStream_Closed OutputHalf s then ''Output closed''
                                 else ''Won't send invalid frame type'')), s) \<and>
   Stream_Rst K st s =
     Returns (Some (errorString (if HalfStream_Closed OutputHalf s then ''Output closed''
                                 else ''Won't send invalid frame type'')), s) \<and>
   Stream_ProtocolError K s =
     Returns (Some (errorString (if HalfStream_Closed OutputHalf s then ''Output closed''
                                 else ''Won't send invalid frame type'')), s)"
  by (simp add: StreamOutput_WriteFrame_def Stream_Rst_def Stream_ProtocolError_def)

text \<open>
  Claim C3, as the code has it. On an open receive half with counter \<open>n\<close> the
  validator admits an OpenStream iff \<open>n = 0\<close> and the stream is not local, a Reply iff \<open>n = 0\<close> and the
  stream is local, a Headers or Data frame iff \<open>n > 0\<close>, and a Reset always. On an
  open send half it admits an OpenStream iff \<open>n = 0\<close> and the stream is local, a
  Reply iff \<open>n = 0\<close> and the stream is not local, a Headers or Data frame iff
  \<open>n > 0\<close>. So in no state are both opening kinds admitted; in the state an
  admitted opening frame leaves, no opening frame is admitted; a call that returns
  has changed the counter exactly when it has admitted its frame; no call of a
  validator changes the flag \<open>local\<close>; and of the first \<open>2\<^sup>3\<^sup>2\<close> frames that
  reach the validator of a half of a new stream, at most one opening frame is
  admitted.
\<close>

theorem validators_admission_table:
  "(\<not> HalfStream_Closed InputHalf s \<longrightarrow>
      (input_admits K (SynStreamFrame fl i h) s \<longleftrightarrow> nFrames (Input s) = 0 \<and> \<not> local s) \<and>
      (input_admits K (SynReplyFrame fl i h) s \<longleftrightarrow> nFrames (Input s) = 0 \<and> local s) \<and>
      (input_admits K (HeadersFrame fl i h) s \<longleftrightarrow> 0 < nFrames (Input s)) \<and>
      (input_admits K (DataFrame i dfl d) s \<longleftrightarrow> 0 < nFrames (Input s)) \<and>
      input_admits K (RstStreamFrame fl i st) s \<and>
      \<not> (input_admits K (SynStreamFrame fl i h) s \<and> input_admits K (SynReplyFrame fl' i' h') s) \<and>
      (\<forall>e s'. input_admits K (SynStreamFrame fl i h) s \<and>
              StreamInput_WriteFrame K (SynStreamFrame fl i h) s = Returns (e, s') \<longrightarrow>
              \<not> input_admits K (SynStreamFrame fl' i' h') s' \<and>
              \<not> input_admits K (SynReplyFrame fl' i' h') s') \<and>
      (\<forall>e s'. input_admits K (SynReplyFrame fl i h) s \<and>
              StreamInput_WriteFrame K (SynReplyFrame fl i h) s = Returns (e, s') \<longrightarrow>
              \<not> input_admits K (SynStreamFrame fl' i' h') s' \<and>
              \<not> input_admits K (SynReplyFrame fl' i' h') s') \<and>
      (\<forall>frame e s'. StreamInput_WriteFrame K frame s = Returns (e, s') \<longrightarrow>
              (nFrames (Input s') \<noteq> nFrames (Input s)) = input_admits K frame s)) \<and>
   (\<not> HalfStream_Closed OutputHalf s \<longrightarrow>
      (output_admits K (SynStreamFrame fl i h) s \<longleftrightarrow> nFrames (Output s) = 0 \<and> local s) \<and>
      (output_admits K (SynReplyFrame fl i h) s \<longleftrightarrow> nFrames (Output s) = 0 \<and> \<not> local s) \<and>
      (output_admits K (HeadersFrame fl i h) s \<longleftrightarrow> 0 < nFrames (Output s)) \<and>
      (output_admits K (DataFrame i dfl d) s \<longleftrightarrow> 0 < nFrames (Output s)) \<and>
      \<not> (output_admits K (SynStreamFrame fl i h) s \<and> output_admits K (SynReplyFrame fl' i' h') s) \<and>
      (\<forall>e s'. output_admits K (SynStreamFrame fl i h) s \<and>
              StreamOutput_WriteFrame K (SynStreamFrame fl i h) s = Returns (e, s') \<longrightarrow>
              \<not> output_admits K (SynStreamFrame fl' i' h') s' \<and>
              \<not> output_admits K (SynReplyFrame fl' i' h') s') \<and>
      (\<forall>e s'. output_admits K (SynReplyFrame fl i h) s \<and>
              StreamOutput_WriteFrame K (SynReplyFrame fl i h) s = Returns (e, s') \<longrightarrow>
              \<not> output_admits K (SynStreamFrame fl' i' h') s' \<and>
              \<not> output_admits K (SynReplyFrame fl' i' h') s') \<and>
      (\<forall>frame e s'. StreamOutput_WriteFrame K frame s = Returns (e, s') \<longrightarrow>
              (nFrames (Output s') \<noteq> nFrames (Output s)) = output_admits K frame s)) \<and>
   (\<forall>frame e s'. StreamInput_WriteFrame K frame s = Returns (e, s') \<longrightarrow> local s' = local s) \<and>
   (\<forall>frame e s'. StreamOutput_WriteFrame K frame s = Returns (e, s') \<longrightarrow> local s' = local s) \<and>
   (length fs \<le> 2 ^ 32 \<longrightarrow> opening_admitted side K fs (NewStream j l) \<le> 1)"
proof (intro conjI impI allI)
  assume o: "\<not> HalfStream_Closed InputHalf s"
  have neq: "Returns (None, s) \<noteq> HalfStream_WriteFrame K InputHalf frame s" for frame
    using HalfStream_WriteFrame_changes [of K InputHalf frame s] by metis
  show ss: "input_admits K (SynStreamFrame fl i h) s \<longleftrightarrow> nFrames (Input s) = 0 \<and> \<not> local s" for fl i h
    using o neq by (auto simp: input_admits_def StreamInput_WriteFrame_def word_gt_0_iff)
  have next_in: "\<not> input_admits K (SynStreamFrame fl' i' h') s' \<and>
              \<not> input_admits K (SynReplyFrame fl' i' h') s'"
    if "input_admits K frame s" "StreamInput_WriteFrame K frame s = Returns (e, s')"
      "nFrames (Input s) = 0" for frame e s'
  proof -
    from that have r: "HalfStream_WriteFrame K InputHalf frame s = Returns (e, s')"
      by (simp add: input_admits_def)
    with o have "e = None"
      using HalfStream_WriteFrame_open_result [of InputHalf s K frame e s']
      by (simp add: HalfStream_Closed_def ChanFramer_Closed_def)
    with r that(3) show ?thesis
      using no_second_opening_frame_in [of K frame s s'] by simp
  qed
  show sr: "input_admits K (SynReplyFrame fl i h) s \<longleftrightarrow> nFrames (Input s) = 0 \<and> local s" for fl i h
    using o neq by (auto simp: input_admits_def StreamInput_WriteFrame_def word_gt_0_iff)
  show "input_admits K (HeadersFrame fl i h) s \<longleftrightarrow> 0 < nFrames (Input s)"
    using o neq by (auto simp: input_admits_def StreamInput_WriteFrame_def word_gt_0_iff)
  show "input_admits K (DataFrame i dfl d) s \<longleftrightarrow> 0 < nFrames (Input s)"
    using o neq by (auto simp: input_admits_def StreamInput_WriteFrame_def word_gt_0_iff)
  show "input_admits K (RstStreamFrame fl i st) s"
    using o by (simp add: input_admits_def StreamInput_WriteFrame_def)
  show "\<not> (input_admits K (SynStreamFrame fl i h) s \<and> input_admits K (SynReplyFrame fl' i' h') s)"
    using o neq by (auto simp: input_admits_def StreamInput_WriteFrame_def word_gt_0_iff)
  show "\<not> input_admits K (SynStreamFrame fl' i' h') s'"
    if "input_admits K (SynStreamFrame fl i h) s \<and>
        StreamInput_WriteFrame K (SynStreamFrame fl i h) s = Returns (e, s')" for e s'
    using that ss [of fl i h] next_in [of "SynStreamFrame fl i h" e s'] by simp
  show "\<not> input_admits K (SynReplyFrame fl' i' h') s'"
    if "input_admits K (SynStreamFrame fl i h) s \<and>
        StreamInput_WriteFrame K (SynStreamFrame fl i h) s = Returns (e, s')" for e s'
    using that ss [of fl i h] next_in [of "SynStreamFrame fl i h" e s'] by simp
  show "\<not> input_admits K (SynStreamFrame fl' i' h') s'"
    if "input_admits K (SynReplyFrame fl i h) s \<and>
        StreamInput_WriteFrame K (SynReplyFrame fl i h) s = Returns (e, s')" for e s'
    using that sr [of fl i h] next_in [of "SynReplyFrame fl i h" e s'] by simp
  show "\<not> input_admits K (SynReplyFrame fl' i' h') s'"
    if "input_admits K (SynReplyFrame fl i h) s \<and>
        StreamInput_WriteFrame K (SynReplyFrame fl i h) s = Returns (e, s')" for e s'
    using that sr [of fl i h] next_in [of "SynReplyFrame fl i h" e s'] by simp
  show "(nFrames (Input s') \<noteq> nFrames (Input s)) = input_admits K frame s"
    if r: "StreamInput_WriteFrame K frame s = Returns (e, s')" for frame e s'
    using StreamInput_WriteFrame_cases [of K frame s]
  proof
    assume a: "StreamInput_WriteFrame K frame s = HalfStream_WriteFrame K InputHalf frame s"
    with r o have "e = None"
      using HalfStream_WriteFrame_open_result [of InputHalf s K frame e s']
      by (simp add: HalfStream_Closed_def ChanFramer_Closed_def)
    with a r have "nFrames (Input s') = nFrames (Input s) + 1"
      using HalfStream_WriteFrame_admitted(1) [of K InputHalf frame s s'] by simp
    with a show ?thesis by (simp add: input_admits_def)
  next
    assume b: "StreamInput_WriteFrame K frame s = Returns (None, s)"
    with r neq [of frame] show ?thesis by (simp add: input_admits_def)
  qed
next
  assume o: "\<not> HalfStream_Closed OutputHalf s"
  have neq: "Returns (Some e, s) \<noteq> HalfStream_WriteFrame K OutputHalf frame s" for frame e
    using HalfStream_WriteFrame_open_no_error [OF o, of K frame e s] by metis
  show ss: "output_admits K (SynStreamFrame fl i h) s \<longleftrightarrow> nFrames (Output s) = 0 \<and> local s" for fl i h
    using o neq by (auto simp: output_admits_def StreamOutput_WriteFrame_def word_gt_0_iff)
  show sr: "output_admits K (SynReplyFrame fl i h) s \<longleftrightarrow> nFrames (Output s) = 0 \<and> \<not> local s" for fl i h
    using o neq by (auto simp: output_admits_def StreamOutput_WriteFrame_def word_gt_0_iff)
  have next_out: "\<not> output_admits K (SynStreamFrame fl' i' h') s' \<and>
              \<not> output_admits K (SynReplyFrame fl' i' h') s'"
    if "output_admits K frame s" "StreamOutput_WriteFrame K frame s = Returns (e, s')"
      "nFrames (Output s) = 0" for frame e s'
  proof -
    from that have r: "HalfStream_WriteFrame K OutputHalf frame s = Returns (e, s')"
      by (simp add: output_admits_def)
    with o have "e = None"
      using HalfStream_WriteFrame_open_result [of OutputHalf s K frame e s']
      by (simp add: HalfStream_Closed_def ChanFramer_Closed_def)
    with r that(3) show ?thesis
      using no_second_opening_frame_out [of K frame s s'] by simp
  qed
  show "output_admits K (HeadersFrame fl i h) s \<longleftrightarrow> 0 < nFrames (Output s)"
    using o neq by (auto simp: output_admits_def StreamOutput_WriteFrame_def word_gt_0_iff)
  show "output_admits K (DataFrame i dfl d) s \<longleftrightarrow> 0 < nFrames (Output s)"
    using o neq by (auto simp: output_admits_def StreamOutput_WriteFrame_def word_gt_0_iff)
  show "\<not> (output_admits K (SynStreamFrame fl i h) s \<and> output_admits K (SynReplyFrame fl' i' h') s)"
    using o neq by (auto simp: output_admits_def StreamOutput_WriteFrame_def word_gt_0_iff)
  show "\<not> output_admits K (SynStreamFrame fl' i' h') s'"
    if "output_admits K (SynStreamFrame fl i h) s \<and>
        StreamOutput_WriteFrame K (SynStreamFrame fl i h) s = Returns (e, s')" for e s'
    using that ss [of fl i h] next_out [of "SynStreamFrame fl i h" e s'] by simp
  show "\<not> output_admits K (SynReplyFrame fl' i' h') s'"
    if "output_admits K (SynStreamFrame fl i h) s \<and>
        StreamOutput_WriteFrame K (SynStreamFrame fl i h) s = Returns (e, s')" for e s'
    using that ss [of fl i h] next_out [of "SynStreamFrame fl i h" e s'] by simp
  show "\<not> output_admits K (SynStreamFrame fl' i' h') s'"
    if "output_admits K (SynReplyFrame fl i h) s \<and>
        StreamOutput_WriteFrame K (SynReplyFrame fl i h) s = Returns (e, s')" for e s'
    using that sr [of fl i h] next_out [of "SynReplyFrame fl i h" e s'] by simp
  show "\<not> output_admits K (SynReplyFrame fl' i' h') s'"
    if "output_admits K (SynReplyFrame fl i h) s \<and>
        StreamOutput_WriteFrame K (SynReplyFrame fl i h) s = Returns (e, s')" for e s'
    using that sr [of fl i h] next_out [of "SynReplyFrame fl i h" e s'] by simp
  show "(nFrames (Output s') \<noteq> nFrames (Output s)) = output_admits K frame s"
    if r: "StreamOutput_WriteFrame K frame s = Returns (e, s')" for frame e s'
    using StreamOutput_WriteFrame_cases [of K frame s]
  proof
    assume a: "StreamOutput_WriteFrame K frame s = HalfStream_WriteFrame K OutputHalf frame s"
    with r o have "e = None"
      using HalfStream_WriteFrame_open_result [of OutputHalf s K frame e s']
      by (simp add: HalfStream_Closed_def ChanFramer_Closed_def)
    with a r have "nFrames (Output s') = nFrames (Output s) + 1"
      using HalfStream_WriteFrame_admitted(1) [of K OutputHalf frame s s'] by simp
    with a show ?thesis by (simp add: output_admits_def)
  next
    assume "\<exists>x. StreamOutput_WriteFrame K frame s = Returns (Some x, s)"
    then obtain x where b: "StreamOutput_WriteFrame K frame s = Returns (Some x, s)" ..
    with r neq [of x frame] show ?thesis by (simp add: output_admits_def)
  qed
next
  fix frame e s'
  assume r: "StreamInput_WriteFrame K frame s = Returns (e, s')"
  show "local s' = local s"
    using r StreamInput_WriteFrame_cases [of K frame s] HalfStream_WriteFrame_local [of K InputHalf frame s e s']
    by auto
next
  fix frame e s'
  assume r: "StreamOutput_WriteFrame K frame s = Returns (e, s')"
  show "local s' = local s"
    using r StreamOutput_WriteFrame_cases [of K frame s] HalfStream_WriteFrame_local [of K OutputHalf frame s e s']
    by auto
next
  assume "length fs \<le> 2 ^ 32"
  then show "opening_admitted side K fs (NewStream j l) \<le> 1"
    using opening_admitted_bound [of side "NewStream j l" 0 fs K]
    by (cases side) simp_all
qed

text \<open>
  The claim as written (at most one opening frame in each direction) fails once the
  counter, a \<^verbatim>\<open>uint32\<close>, has wrapped round: after an OpenStream and
  \<open>2\<^sup>3\<^sup>2 - 1\<close> Data frames have been admitted by the receive half of a new stream,
  the counter is 0 again and a second OpenStream is admitted.
\<close>

theorem second_opening_frame_counterexample:
  "opening_admitted InputHalf draft_consts
     (SynStreamFrame 0 1 [] # replicate 4294967295 (DataFrame 1 0 []) @ [SynStreamFrame 0 1 []])
     (NewStream 1 False) = 2"
proof -
  have first: "StreamInput_WriteFrame draft_consts (SynStreamFrame 0 1 []) (NewStream 1 False) =
      Returns (None, queued [SynStreamFrame 0 1 []] 1)"
    by code_simp
  have n: "nFrames (Input (queued [SynStreamFrame 0 1 []] 1)) \<noteq> nFrames (Input (NewStream 1 False))"
    by (simp add: queued_def)
  have run: "opening_admitted InputHalf draft_consts
      (replicate 4294967295 (DataFrame 1 0 []) @ [SynStreamFrame 0 1 []]) (queued [] (of_nat 1)) =
     opening_admitted InputHalf draft_consts [SynStreamFrame 0 1 []] (queued [] (of_nat (1 + 4294967295)))"
    by (rule data_run) simp_all
  have wrap: "(of_nat (1 + 4294967295) :: 32 word) = 0"
    by simp
  have last: "opening_admitted InputHalf draft_consts [SynStreamFrame 0 1 []] (queued [] 0) = 1"
    by code_simp
  have "opening_admitted InputHalf draft_consts
      (replicate 4294967295 (DataFrame 1 0 []) @ [SynStreamFrame 0 1 []]) (queued [] 1) = 1"
    using run last unfolding wrap by simp
  then show ?thesis
    using n by (simp add: first take_frame_queued)
qed

text \<open>
  The table on the new stream \<^verbatim>\<open>NewStream(1, false)\<close>, and on the streams its
  first OpenStream received and its first Reply sent leave; three opening frames
  arriving at the new stream.
\<close>

theorem validators_admission_table_witness:
  "\<not> HalfStream_Closed InputHalf (NewStream 1 False) \<and>
   \<not> HalfStream_Closed OutputHalf (NewStream 1 False) \<and>
   input_admits draft_consts (SynStreamFrame 0 1 []) (NewStream 1 False) \<and>
   \<not> input_admits draft_consts (SynReplyFrame 0 1 []) (NewStream 1 False) \<and>
   \<not> input_admits draft_consts (DataFrame 1 0 []) (NewStream 1 False) \<and>
   input_admits draft_consts (RstStreamFrame 0 1 1) (NewStream 1 False) \<and>
   StreamInput_WriteFrame draft_consts (SynStreamFrame 0 1 []) (NewStream 1 False) =
     Returns (None, syn_received) \<and>
   \<not> input_admits draft_consts (SynStreamFrame 0 1 []) syn_received \<and>
   \<not> input_admits draft_consts (SynReplyFrame 0 1 []) syn_received \<and>
   local syn_received = local (NewStream 1 False) \<and>
   output_admits draft_consts (SynReplyFrame 0 1 []) (NewStream 1 False) \<and>
   \<not> output_admits draft_consts (SynStreamFrame 0 1 []) (NewStream 1 False) \<and>
   \<not> output_admits draft_consts (HeadersFrame 0 1 []) (NewStream 1 False) \<and>
   StreamOutput_WriteFrame draft_consts (SynReplyFrame 0 1 []) (NewStream 1 False) =
     Returns (None, reply_sent) \<and>
   \<not> output_admits draft_consts (SynStreamFrame 0 1 []) reply_sent \<and>
   \<not> output_admits draft_consts (SynReplyFrame 0 1 []) reply_sent \<and>
   local reply_sent = local (NewStream 1 False) \<and>
   length [SynStreamFrame 0 1 [], SynStreamFrame 0 1 [], SynReplyFrame 0 1 []] \<le> 2 ^ 32 \<and>
   opening_admitted InputHalf draft_consts
     [SynStreamFrame 0 1 [], SynStreamFrame 0 1 [], SynReplyFrame 0 1 []] (NewStream 1 False) \<le> 1"
proof -
  have w: "opening_admitted InputHalf draft_consts
     [SynStreamFrame 0 1 [], SynStreamFrame 0 1 [], SynReplyFrame 0 1 []] (NewStream 1 False) \<le> 1"
    using validators_admission_table [where fs = "[SynStreamFrame 0 1 [], SynStreamFrame 0 1 [], SynReplyFrame 0 1 []]"
        and side = InputHalf and K = draft_consts and j = 1 and l = False]
    by simp
  have a: "StreamInput_WriteFrame draft_consts (SynStreamFrame 0 1 []) (NewStream 1 False) =
     Returns (None, syn_received)"
    by code_simp
  have b: "StreamOutput_WriteFrame draft_consts (SynReplyFrame 0 1 []) (NewStream 1 False) =
     Returns (None, reply_sent)"
    by code_simp
  have t: "\<not> HalfStream_Closed InputHalf (NewStream 1 False) \<and>
     \<not> HalfStream_Closed OutputHalf (NewStream 1 False) \<and>
     input_admits draft_consts (SynStreamFrame 0 1 []) (NewStream 1 False) \<and>
     \<not> input_admits draft_consts (SynReplyFrame 0 1 []) (NewStream 1 False) \<and>
     \<not> input_admits draft_consts (DataFrame 1 0 []) (NewStream 1 False) \<and>
     input_admits draft_consts (RstStreamFrame 0 1 1) (NewStream 1 False) \<and>
     output_admits draft_consts (SynReplyFrame 0 1 []) (NewStream 1 False) \<and>
     \<not> output_admits draft_consts (SynStreamFrame 0 1 []) (NewStream 1 False) \<and>
     \<not> output_admits draft_consts (HeadersFrame 0 1 []) (NewStream 1 False)"
    using validators_admission_table [where s = "NewStream 1 False" and K = draft_consts
        and fl = 0 and i = 1 and h = "[]" and dfl = 0 and d = "[]" and st = 1]
    by simp
  have o: "\<not> HalfStream_Closed InputHalf (NewStream 1 False)"
    "\<not> HalfStream_Closed OutputHalf (NewStream 1 False)"
    by simp_all
  have adm: "input_admits draft_consts (SynStreamFrame 0 1 []) (NewStream 1 False)"
    "output_admits draft_consts (SynReplyFrame 0 1 []) (NewStream 1 False)"
    using t by simp_all
  note rows_in = validators_admission_table [where s = "NewStream 1 False" and K = draft_consts
      and fl = 0 and i = 1 and h = "[]" and fl' = 0 and i' = 1 and h' = "[]",
      THEN conjunct1, THEN mp, OF o(1)]
  note rows_out = validators_admission_table [where s = "NewStream 1 False" and K = draft_consts
      and fl = 0 and i = 1 and h = "[]" and fl' = 0 and i' = 1 and h' = "[]",
      THEN conjunct2, THEN conjunct1, THEN mp, OF o(2)]
  have n: "\<not> input_admits draft_consts (SynStreamFrame 0 1 []) syn_received \<and>
     \<not> input_admits draft_consts (SynReplyFrame 0 1 []) syn_received \<and>
     local syn_received = local (NewStream 1 False)"
    using rows_in [THEN conjunct2, THEN conjunct2, THEN conjunct2, THEN conjunct2, THEN conjunct2,
        THEN conjunct2, THEN conjunct1, THEN spec, THEN spec, THEN mp, OF conjI [OF adm(1) a]]
    by (simp add: syn_received_def)
  have m: "\<not> output_admits draft_consts (SynStreamFrame 0 1 []) reply_sent \<and>
     \<not> output_admits draft_consts (SynReplyFrame 0 1 []) reply_sent \<and>
     local reply_sent = local (NewStream 1 False)"
    using rows_out [THEN conjunct2, THEN conjunct2, THEN conjunct2, THEN conjunct2, THEN conjunct2,
        THEN conjunct2, THEN conjunct1, THEN spec, THEN spec, THEN mp, OF conjI [OF adm(2) b]]
    by (simp add: reply_sent_def)
  from a b t n m w show ?thesis by simp
qed

text \<open>
  Claim C4. When \<^verbatim>\<open>HalfStream.WriteFrame\<close> admits a frame (it returns nil), the
  frame is in the queue of that half and the counter is one more than before. If the
  frame is not a Reset and has the fin flag, that half is closed and the other half
  is what it was; if it is not a Reset and has no fin flag, the half stays open; if
  it is a Reset, both halves are closed.
\<close>

theorem admitted_frame_closes:
  "HalfStream_WriteFrame K side frame s = Returns (None, s') \<Longrightarrow>
     nFrames (half_of side s') = nFrames (half_of side s) + 1 \<and>
     chan_buf (ch (ChanFramer (half_of side s'))) =
       chan_buf (ch (ChanFramer (half_of side s))) @ [frame] \<and>
     (\<not> isRst frame \<and> GetFinFlag K frame \<longrightarrow>
        HalfStream_Closed side s' \<and>
        half_of (other_half side) s' = half_of (other_half side) s) \<and>
     (\<not> isRst frame \<and> \<not> GetFinFlag K frame \<longrightarrow>
        \<not> HalfStream_Closed side s' \<and>
        half_of (other_half side) s' = half_of (other_half side) s) \<and>
     (isRst frame \<longrightarrow> HalfStream_Closed InputHalf s' \<and> HalfStream_Closed OutputHalf s')"
  using HalfStream_WriteFrame_admitted [of K side frame s s']
    HalfStream_WriteFrame_stays_open [of K side frame s s']
  by (simp add: HalfStream_Closed_def ChanFramer_Closed_def)

text \<open>
  An OpenStream with the fin flag, a Reset, and an OpenStream without the fin flag,
  each admitted by the receive half of a new stream.
\<close>

theorem admitted_frame_closes_witness:
  "(HalfStream_WriteFrame draft_consts InputHalf (SynStreamFrame 1 1 []) (NewStream 1 False) =
      Returns (None, fin_syn_admitted) \<and>
    \<not> isRst (SynStreamFrame 1 1 []) \<and> GetFinFlag draft_consts (SynStreamFrame 1 1 []) \<and>
    nFrames (Input fin_syn_admitted) = nFrames (Input (NewStream 1 False)) + 1 \<and>
    HalfStream_Closed InputHalf fin_syn_admitted \<and>
    Output fin_syn_admitted = Output (NewStream 1 False)) \<and>
   (HalfStream_WriteFrame draft_consts InputHalf (RstStreamFrame 0 1 1) (NewStream 1 False) =
      Returns (None, rst_admitted) \<and>
    isRst (RstStreamFrame 0 1 1) \<and>
    nFrames (Input rst_admitted) = nFrames (Input (NewStream 1 False)) + 1 \<and>
    HalfStream_Closed InputHalf rst_admitted \<and> HalfStream_Closed OutputHalf rst_admitted) \<and>
   (HalfStream_WriteFrame draft_consts InputHalf (SynStreamFrame 0 1 []) (NewStream 1 False) =
      Returns (None, syn_received) \<and>
    \<not> isRst (SynStreamFrame 0 1 []) \<and> \<not> GetFinFlag draft_consts (SynStreamFrame 0 1 []) \<and>
    nFrames (Input syn_received) = nFrames (Input (NewStream 1 False)) + 1 \<and>
    \<not> HalfStream_Closed InputHalf syn_received \<and>
    Output syn_received = Output (NewStream 1 False))"
proof -
  have c: "HalfStream_WriteFrame draft_consts InputHalf (SynStreamFrame 0 1 []) (NewStream 1 False) =
      Returns (None, syn_received)"
    by code_simp
  have a: "HalfStream_WriteFrame draft_consts InputHalf (SynStreamFrame 1 1 []) (NewStream 1 False) =
      Returns (None, fin_syn_admitted)"
    by code_simp
  have b: "HalfStream_WriteFrame draft_consts InputHalf (RstStreamFrame 0 1 1) (NewStream 1 False) =
      Returns (None, rst_admitted)"
    by code_simp
  have f: "GetFinFlag draft_consts (SynStreamFrame 1 1 [])"
    by (simp add: draft_consts_def)
  show ?thesis
    using a b c f admitted_frame_closes [OF a] admitted_frame_closes [OF b]
      admitted_frame_closes [OF c]
    by simp
qed

text \<open>
  Claim C5, as the code has it, for a framer that is only given errors that are not
  nil. Three frames written to a new framer are read back in the order they
  were written. In general a write to an open framer with room puts the frame at the
  end of the queue, and a read takes the frame at its front. \<^verbatim>\<open>Error\<close> with an
  error that is not nil, and \<^verbatim>\<open>Close\<close>, on an open framer record the condition
  and close the channel; once a condition is recorded, \<^verbatim>\<open>Error\<close> (with any
  argument) and \<^verbatim>\<open>Close\<close> change nothing, a write returns the recorded condition
  and queues nothing, and \<^verbatim>\<open>Closed\<close> is true whatever the queue holds; once the
  queue is drained as well, a read returns no frame and the recorded condition, and
  leaves the framer as it is. The channel of a new framer is closed exactly when an
  error is recorded, and a write, a read, \<^verbatim>\<open>Close\<close> and \<^verbatim>\<open>Error\<close> with an
  error that is not nil keep it so.
\<close>

theorem ChanFramer_fifo_one_shot:
  "and_then (ChanFramer_WriteFrame F1 NewChanFramer) (\<lambda>(e1, a).
   and_then (ChanFramer_WriteFrame F2 a) (\<lambda>(e2, b).
   and_then (ChanFramer_WriteFrame F3 b) (\<lambda>(e3, c).
   and_then (ChanFramer_ReadFrame c) (\<lambda>(r1, d).
   and_then (ChanFramer_ReadFrame d) (\<lambda>(r2, g).
   and_then (ChanFramer_ReadFrame g) (\<lambda>(r3, h).
     Returns ([e1, e2, e3], [r1, r2, r3], h))))))) =
   Returns ([None, None, None], [(Some F1, None), (Some F2, None), (Some F3, None)], NewChanFramer) \<and>
   (err f = None \<and> \<not> chan_closed (ch f) \<and> has_room f \<longrightarrow>
      ChanFramer_WriteFrame x f =
        Returns (None, f\<lparr>ch := (ch f)\<lparr>chan_buf := chan_buf (ch f) @ [x]\<rparr>\<rparr>)) \<and>
   (chan_buf (ch f) = y # rest \<longrightarrow>
      ChanFramer_ReadFrame f = Returns ((Some y, None), f\<lparr>ch := (ch f)\<lparr>chan_buf := rest\<rparr>\<rparr>)) \<and>
   (err f = None \<and> \<not> chan_closed (ch f) \<longrightarrow>
      ChanFramer_Error (Some e) f = Returns (f\<lparr>err := Some e, ch := (ch f)\<lparr>chan_closed := True\<rparr>\<rparr>) \<and>
      ChanFramer_Close f = Returns (f\<lparr>err := Some EOF, ch := (ch f)\<lparr>chan_closed := True\<rparr>\<rparr>)) \<and>
   (err f = Some e \<longrightarrow>
      ChanFramer_Error e' f = Returns f \<and> ChanFramer_Close f = Returns f \<and>
      ChanFramer_WriteFrame x f = Returns (Some e, f) \<and> ChanFramer_Closed f) \<and>
   (err f = Some e \<and> chan_closed (ch f) \<and> chan_buf (ch f) = [] \<longrightarrow>
      ChanFramer_ReadFrame f = Returns ((None, Some e), f)) \<and>
   (chan_ok f \<and> err f = Some e \<and> chan_buf (ch f) = [] \<longrightarrow>
      ChanFramer_ReadFrame f = Returns ((None, Some e), f)) \<and>
   chan_ok NewChanFramer \<and>
   (chan_ok f \<longrightarrow>
      (\<forall>e1 f'. ChanFramer_WriteFrame x f = Returns (e1, f') \<longrightarrow> chan_ok f') \<and>
      (\<forall>r f'. ChanFramer_ReadFrame f = Returns (r, f') \<longrightarrow> chan_ok f') \<and>
      (\<forall>f'. ChanFramer_Error (Some e) f = Returns f' \<longrightarrow> chan_ok f') \<and>
      (\<forall>f'. ChanFramer_Close f = Returns f' \<longrightarrow> chan_ok f'))"
proof (intro conjI impI allI)
  show "and_then (ChanFramer_WriteFrame F1 NewChanFramer) (\<lambda>(e1, a).
   and_then (ChanFramer_WriteFrame F2 a) (\<lambda>(e2, b).
   and_then (ChanFramer_WriteFrame F3 b) (\<lambda>(e3, c).
   and_then (ChanFramer_ReadFrame c) (\<lambda>(r1, d).
   and_then (ChanFramer_ReadFrame d) (\<lambda>(r2, g).
   and_then (ChanFramer_ReadFrame g) (\<lambda>(r3, h).
     Returns ([e1, e2, e3], [r1, r2, r3], h))))))) =
   Returns ([None, None, None], [(Some F1, None), (Some F2, None), (Some F3, None)], NewChanFramer)"
    by (rule three_frames_fifo)
  show "chan_ok NewChanFramer"
    by (rule chan_ok_preserved(1))
  show "chan_ok f'" if "chan_ok f" "ChanFramer_WriteFrame x f = Returns (e1, f')" for e1 f'
    using that by (rule chan_ok_preserved(2))
  show "chan_ok f'" if "chan_ok f" "ChanFramer_ReadFrame f = Returns (r, f')" for r f'
    using that by (rule chan_ok_preserved(3))
  show "chan_ok f'" if "chan_ok f" "ChanFramer_Error (Some e) f = Returns f'" for f'
    using that by (rule chan_ok_preserved(4))
  show "chan_ok f'" if "chan_ok f" "ChanFramer_Close f = Returns f'" for f'
    using that by (rule chan_ok_preserved(5))
  show "ChanFramer_ReadFrame f = Returns ((None, Some e), f)"
    if "chan_ok f \<and> err f = Some e \<and> chan_buf (ch f) = []"
    using that by (simp add: chan_ok_def ChanFramer_ReadFrame_def chan_recv_def)
qed (simp_all add: ChanFramer_WriteFrame_def ChanFramer_ReadFrame_def ChanFramer_Error_def
    ChanFramer_Close_def ChanFramer_Closed_def chan_send_def chan_recv_def chan_close_def
    has_room_def)

text \<open>
  The claim as written (\<^verbatim>\<open>Error\<close> is one-shot and idempotent, whatever it is
  given) fails for \<^verbatim>\<open>Error(nil)\<close> on a new framer: the call closes the channel
  and records nothing, so \<^verbatim>\<open>Closed\<close> is still false, and a second
  \<^verbatim>\<open>Error(nil)\<close>, an \<^verbatim>\<open>Error\<close> with an error, a \<^verbatim>\<open>Close\<close> and a write all
  panic; a read returns no frame and no condition.
\<close>

theorem Error_nil_counterexample:
  "ChanFramer_Error None NewChanFramer = Returns nil_closed \<and>
   \<not> ChanFramer_Closed nil_closed \<and>
   ChanFramer_Error None nil_closed = Panics \<and>
   ChanFramer_Error (Some EOF) nil_closed = Panics \<and>
   ChanFramer_Close nil_closed = Panics \<and>
   ChanFramer_WriteFrame (NoopFrame 0) nil_closed = Panics \<and>
   ChanFramer_ReadFrame nil_closed = Returns ((None, None), nil_closed)"
  by code_simp

text \<open>
  A write, a read and \<^verbatim>\<open>Error\<close> on the framer with two frames waiting, and the
  framers they leave; the operations on the drained framer with a recorded error.
\<close>

theorem ChanFramer_fifo_one_shot_witness:
  "(err buffered_framer = None \<and> \<not> chan_closed (ch buffered_framer) \<and> has_room buffered_framer) \<and>
   ChanFramer_WriteFrame (GoAwayFrame 0) buffered_framer =
     Returns (None, \<lparr>ch = \<lparr>chan_buf = [PingFrame 0, NoopFrame 0, GoAwayFrame 0], chan_closed = False\<rparr>, err = None\<rparr>) \<and>
   chan_buf (ch buffered_framer) = PingFrame 0 # [NoopFrame 0] \<and>
   ChanFramer_ReadFrame buffered_framer =
     Returns ((Some (PingFrame 0), None), \<lparr>ch = \<lparr>chan_buf = [NoopFrame 0], chan_closed = False\<rparr>, err = None\<rparr>) \<and>
   ChanFramer_Error (Some (errorString ''reset'')) buffered_framer =
     Returns \<lparr>ch = \<lparr>chan_buf = [PingFrame 0, NoopFrame 0], chan_closed = True\<rparr>, err = Some (errorString ''reset'')\<rparr> \<and>
   (err closed_framer = Some (errorString ''reset'') \<and> chan_closed (ch closed_framer) \<and>
      chan_buf (ch closed_framer) = []) \<and>
   ChanFramer_Error (Some EOF) closed_framer = Returns closed_framer \<and>
   ChanFramer_Close closed_framer = Returns closed_framer \<and>
   ChanFramer_WriteFrame (GoAwayFrame 0) closed_framer = Returns (Some (errorString ''reset''), closed_framer) \<and>
   ChanFramer_Closed closed_framer \<and>
   ChanFramer_ReadFrame closed_framer = Returns ((None, Some (errorString ''reset'')), closed_framer) \<and>
   chan_ok buffered_framer \<and> chan_ok closed_framer \<and>
   chan_ok \<lparr>ch = \<lparr>chan_buf = [PingFrame 0, NoopFrame 0, GoAwayFrame 0], chan_closed = False\<rparr>, err = None\<rparr> \<and>
   chan_ok \<lparr>ch = \<lparr>chan_buf = [NoopFrame 0], chan_closed = False\<rparr>, err = None\<rparr> \<and>
   chan_ok \<lparr>ch = \<lparr>chan_buf = [PingFrame 0, NoopFrame 0], chan_closed = True\<rparr>, err = Some (errorString ''reset'')\<rparr>"
proof -
  have k: "chan_ok buffered_framer" "chan_ok closed_framer"
    by (simp_all add: chan_ok_def buffered_framer_def closed_framer_def)
  have b: "err buffered_framer = None \<and> \<not> chan_closed (ch buffered_framer) \<and> has_room buffered_framer"
    "chan_buf (ch buffered_framer) = PingFrame 0 # [NoopFrame 0]"
    by (simp_all add: buffered_framer_def has_room_def chan_cap_def)
  have c: "err closed_framer = Some (errorString ''reset'') \<and> chan_closed (ch closed_framer) \<and>
      chan_buf (ch closed_framer) = []"
    by (simp add: closed_framer_def)
  from ChanFramer_fifo_one_shot [of "PingFrame 0" "NoopFrame 0" "GoAwayFrame 0" buffered_framer "GoAwayFrame 0"
      "PingFrame 0" "[NoopFrame 0]" "errorString ''reset''" "Some EOF"] b
  have 1: "ChanFramer_WriteFrame (GoAwayFrame 0) buffered_framer =
     Returns (None, \<lparr>ch = \<lparr>chan_buf = [PingFrame 0, NoopFrame 0, GoAwayFrame 0], chan_closed = False\<rparr>, err = None\<rparr>)"
    "ChanFramer_ReadFrame buffered_framer =
     Returns ((Some (PingFrame 0), None), \<lparr>ch = \<lparr>chan_buf = [NoopFrame 0], chan_closed = False\<rparr>, err = None\<rparr>)"
    "ChanFramer_Error (Some (errorString ''reset'')) buffered_framer =
     Returns \<lparr>ch = \<lparr>chan_buf = [PingFrame 0, NoopFrame 0], chan_closed = True\<rparr>, err = Some (errorString ''reset'')\<rparr>"
    by (simp_all add: buffered_framer_def)
  from ChanFramer_fifo_one_shot [of "PingFrame 0" "NoopFrame 0" "GoAwayFrame 0" closed_framer "GoAwayFrame 0"
      "PingFrame 0" "[NoopFrame 0]" "errorString ''reset''" "Some EOF"] c
  have 2: "ChanFramer_Error (Some EOF) closed_framer = Returns closed_framer"
   "ChanFramer_Close closed_framer = Returns closed_framer"
   "ChanFramer_WriteFrame (GoAwayFrame 0) closed_framer = Returns (Some (errorString ''reset''), closed_framer)"
   "ChanFramer_Closed closed_framer"
   "ChanFramer_ReadFrame closed_framer = Returns ((None, Some (errorString ''reset'')), closed_framer)"
    by simp_all
  from ChanFramer_fifo_one_shot [of "PingFrame 0" "NoopFrame 0" "GoAwayFrame 0" buffered_framer "GoAwayFrame 0"
      "PingFrame 0" "[NoopFrame 0]" "errorString ''reset''" "Some EOF"] k(1) 1
  have 3: "chan_ok \<lparr>ch = \<lparr>chan_buf = [PingFrame 0, NoopFrame 0, GoAwayFrame 0], chan_closed = False\<rparr>, err = None\<rparr>"
    "chan_ok \<lparr>ch = \<lparr>chan_buf = [NoopFrame 0], chan_closed = False\<rparr>, err = None\<rparr>"
    "chan_ok \<lparr>ch = \<lparr>chan_buf = [PingFrame 0, NoopFrame 0], chan_closed = True\<rparr>, err = Some (errorString ''reset'')\<rparr>"
    by simp_all
  from b c 1 2 k 3 show ?thesis by blast
qed

text \<open>
  Claim C6, as the code has it. \<^verbatim>\<open>UpdateHeaders\<close> adds with
  \<^verbatim>\<open>http.Header.Add\<close>, which replaces each new key by
  \<^verbatim>\<open>CanonicalMIMEHeaderKey\<close> of it first: the canonical form of a key made of
  token bytes, the key itself otherwise. After the merge, the values of a key are its
  old values followed by the values of the new keys that are replaced by it, in the
  order the new mapping gives them: nothing is removed or overwritten. Merging
  \<open>{a: [1]}\<close> and then \<open>{a: [2], b: [3]}\<close> into the empty mapping gives
  \<open>{A: [1, 2], B: [3]}\<close>. The key \<open>content-type\<close> becomes \<open>Content-Type\<close>; the
  keys \<open>a b\<close> and \<open>x@y-z\<close>, which hold a space and a byte that is no token byte,
  stay as they are, so that merging \<open>{a b: [1], A B: [2]}\<close> into \<open>{a b: [0]}\<close> gives
  \<open>{a b: [0, 1], A B: [2]}\<close>. An admitted frame that carries headers has them
  merged into the headers of its half in this way.
\<close>

theorem UpdateHeaders_additive:
  "values_of (UpdateHeaders h new) k =
     values_of h k @ concat (map snd (filter (\<lambda>(key, vals). CanonicalMIMEHeaderKey key = k) new)) \<and>
   UpdateHeaders (UpdateHeaders [] [(''a'', [''1''])]) [(''a'', [''2'']), (''b'', [''3''])] =
     [(''A'', [''1'', ''2'']), (''B'', [''3''])] \<and>
   (HalfStream_WriteFrame K side frame s = Returns (None, s') \<longrightarrow>
      Headers (half_of side s') =
        (case GetHeaders frame of None \<Rightarrow> Headers (half_of side s)
         | Some hs \<Rightarrow> UpdateHeaders (Headers (half_of side s)) hs)) \<and>
   CanonicalMIMEHeaderKey ''content-type'' = ''Content-Type'' \<and>
   CanonicalMIMEHeaderKey ''a b'' = ''a b'' \<and>
   CanonicalMIMEHeaderKey ''x@y-z'' = ''x@y-z'' \<and>
   UpdateHeaders [(''a b'', [''0''])] [(''a b'', [''1'']), (''A B'', [''2''])] =
     [(''a b'', [''0'', ''1'']), (''A B'', [''2''])]"
proof (intro conjI impI)
  show "UpdateHeaders (UpdateHeaders [] [(''a'', [''1''])]) [(''a'', [''2'']), (''b'', [''3''])] =
     [(''A'', [''1'', ''2'']), (''B'', [''3''])]"
    by code_simp
  show "CanonicalMIMEHeaderKey ''content-type'' = ''Content-Type''"
    by code_simp
  show "CanonicalMIMEHeaderKey ''a b'' = ''a b''"
    by code_simp
  show "CanonicalMIMEHeaderKey ''x@y-z'' = ''x@y-z''"
    by code_simp
  show "UpdateHeaders [(''a b'', [''0''])] [(''a b'', [''1'']), (''A B'', [''2''])] =
     [(''a b'', [''0'', ''1'']), (''A B'', [''2''])]"
    by code_simp
qed (simp_all add: values_of_UpdateHeaders HalfStream_WriteFrame_admitted(3))

text \<open>
  The example of the claim as written: the merged mapping is not
  \<open>{a: [1, 2], b: [3]}\<close>, since it has no key \<open>a\<close>.
\<close>

theorem UpdateHeaders_example_counterexample:
  "map_of (UpdateHeaders (UpdateHeaders [] [(''a'', [''1''])]) [(''a'', [''2'']), (''b'', [''3''])])
     \<noteq> map_of [(''a'', [''1'', ''2'']), (''b'', [''3''])]"
proof
  assume "map_of (UpdateHeaders (UpdateHeaders [] [(''a'', [''1''])]) [(''a'', [''2'']), (''b'', [''3''])])
     = map_of [(''a'', [''1'', ''2'']), (''b'', [''3''])]"
  then have "map_of (UpdateHeaders (UpdateHeaders [] [(''a'', [''1''])]) [(''a'', [''2'']), (''b'', [''3''])]) ''a''
     = map_of [(''a'', [''1'', ''2'']), (''b'', [''3''])] ''a''"
    by simp
  moreover have "UpdateHeaders (UpdateHeaders [] [(''a'', [''1''])]) [(''a'', [''2'']), (''b'', [''3''])] =
     [(''A'', [''1'', ''2'']), (''B'', [''3''])]"
    by code_simp
  ultimately show False by simp
qed

text \<open>
  An OpenStream with the header \<open>{a: [1]}\<close> admitted by the receive half of a new
  stream.
\<close>

theorem UpdateHeaders_additive_witness:
  "HalfStream_WriteFrame draft_consts InputHalf (SynStreamFrame 0 1 [(''a'', [''1''])]) (NewStream 1 False) =
     Returns (None, (NewStream 1 False)\<lparr>Input := NewHalfStream
       \<lparr>ChanFramer := NewChanFramer\<lparr>ch := \<lparr>chan_buf = [SynStreamFrame 0 1 [(''a'', [''1''])]], chan_closed = False\<rparr>\<rparr>,
        Headers := [(''A'', [''1''])], nFrames := 1\<rparr>\<rparr>) \<and>
   Headers (Input ((NewStream 1 False)\<lparr>Input := NewHalfStream
       \<lparr>ChanFramer := NewChanFramer\<lparr>ch := \<lparr>chan_buf = [SynStreamFrame 0 1 [(''a'', [''1''])]], chan_closed = False\<rparr>\<rparr>,
        Headers := [(''A'', [''1''])], nFrames := 1\<rparr>\<rparr>)) =
     UpdateHeaders (Headers (Input (NewStream 1 False))) [(''a'', [''1''])]"
proof -
  have run: "HalfStream_WriteFrame draft_consts InputHalf (SynStreamFrame 0 1 [(''a'', [''1''])]) (NewStream 1 False) =
     Returns (None, (NewStream 1 False)\<lparr>Input := NewHalfStream
       \<lparr>ChanFramer := NewChanFramer\<lparr>ch := \<lparr>chan_buf = [SynStreamFrame 0 1 [(''a'', [''1''])]], chan_closed = False\<rparr>\<rparr>,
        Headers := [(''A'', [''1''])], nFrames := 1\<rparr>\<rparr>)"
    by code_simp
  show ?thesis
    using run UpdateHeaders_additive [of "Headers (Input (NewStream 1 False))" "[(''a'', [''1''])]" "''A''"
        draft_consts InputHalf "SynStreamFrame 0 1 [(''a'', [''1''])]" "NewStream 1 False"
        "(NewStream 1 False)\<lparr>Input := NewHalfStream
       \<lparr>ChanFramer := NewChanFramer\<lparr>ch := \<lparr>chan_buf = [SynStreamFrame 0 1 [(''a'', [''1''])]], chan_closed = False\<rparr>\<rparr>,
        Headers := [(''A'', [''1''])], nFrames := 1\<rparr>\<rparr>"]
    by simp
qed

text \<open>
  Claim C7, as the code has it. A Noop, Settings, Ping or GoAway frame has stream id 0
  and no header mapping; its fin flag is the bit \<^verbatim>\<open>ControlFlagFin\<close> of the flags
  in its control-frame header, as for every other control frame: clear when the
  flags are zero, set when the header carries the bit.
\<close>

theorem session_frames_accessors:
  "GetStreamId (NoopFrame fl) = 0 \<and> GetStreamId (SettingsFrame fl) = 0 \<and>
   GetStreamId (PingFrame fl) = 0 \<and> GetStreamId (GoAwayFrame fl) = 0 \<and>
   GetHeaders (NoopFrame fl) = None \<and> GetHeaders (SettingsFrame fl) = None \<and>
   GetHeaders (PingFrame fl) = None \<and> GetHeaders (GoAwayFrame fl) = None \<and>
   GetFinFlag K (NoopFrame fl) = (fl AND ControlFlagFin K \<noteq> 0) \<and>
   GetFinFlag K (SettingsFrame fl) = (fl AND ControlFlagFin K \<noteq> 0) \<and>
   GetFinFlag K (PingFrame fl) = (fl AND ControlFlagFin K \<noteq> 0) \<and>
   GetFinFlag K (GoAwayFrame fl) = (fl AND ControlFlagFin K \<noteq> 0) \<and>
   \<not> GetFinFlag K (NoopFrame 0) \<and> \<not> GetFinFlag K (SettingsFrame 0) \<and>
   \<not> GetFinFlag K (PingFrame 0) \<and> \<not> GetFinFlag K (GoAwayFrame 0)"
  by simp

text \<open>
  The claim as written (no fin flag whatever the stored flags are) fails for each of
  the four frames when the header's flags are \<^verbatim>\<open>0x01\<close>.
\<close>

theorem session_frame_fin_counterexample:
  "GetFinFlag draft_consts (NoopFrame 1) \<and> GetFinFlag draft_consts (SettingsFrame 1) \<and>
   GetFinFlag draft_consts (PingFrame 1) \<and> GetFinFlag draft_consts (GoAwayFrame 1)"
  by (simp add: draft_consts_def)

text \<open>
  Claim C8. For a reader that gives the frames of a list and then a terminal
  condition, \<^verbatim>\<open>Copy\<close> returns, and
  \<^item> with a nil writer it returns nil when the terminal condition is \<^verbatim>\<open>io.EOF\<close>
    and the terminal condition otherwise, having read every frame and written
    nothing;
  \<^item> with a writer it does what \<open>forward\<close> says: when no write fails, every frame
    has been written in order and the result is as with a nil writer; otherwise it
    returns the error of the first write that fails, and the frames after that one
    are still unread;
  \<^item> in particular a writer that never fails has received the frames in order, and
    a writer that fails at its second frame leaves the third frame unread;
  \<^item> and with a nil writer, an OpenStream and a Data frame with fin followed by
    end-of-stream give success.
\<close>

theorem Copy_script:
  "Copy None script_read ws (fs, t) = Some (if t = EOF then None else Some t, ws, ([], t)) \<and>
   Copy (Some write) script_read ws (fs, t) =
     Some (case forward write fs ws of
             (None, ws', rest) \<Rightarrow> (if t = EOF then None else Some t, ws', ([], t))
           | (Some e, ws', rest) \<Rightarrow> (Some e, ws', (rest, t))) \<and>
   Copy (Some record_write) script_read written (fs, t) =
     Some (if t = EOF then None else Some t, written @ map Some fs, ([], t)) \<and>
   Copy (Some (limited_write 1)) script_read [] ([NoopFrame 0, PingFrame 0, GoAwayFrame 0], EOF) =
     Some (Some (errorString ''full''), [Some (NoopFrame 0)], ([GoAwayFrame 0], EOF)) \<and>
   Copy None script_read ws ([SynStreamFrame fl i h, DataFrame i (DataFlagFin K) d], EOF) =
     Some (None, ws, ([], EOF))"
  by (simp add: Copy_nil_writer Copy_writer forward_record_write limited_write_def)

text \<open>
  Claim C9, as the code has it. The receive validator never returns an error. A frame
  it does not admit makes it return nil and leave the stream as it was, in every
  state. When each channel is closed exactly if an error is recorded and the receive
  queue has room, it returns nil for every frame. When the channel of the receive
  half is closed exactly if an error is recorded and the receive queue is full, the
  call for a frame that the validator admits blocks.
\<close>

theorem StreamInput_WriteFrame_no_error:
  "(\<forall>e s'. StreamInput_WriteFrame K frame s \<noteq> Returns (Some e, s')) \<and>
   (\<not> input_admits K frame s \<longrightarrow> StreamInput_WriteFrame K frame s = Returns (None, s)) \<and>
   (chan_ok (ChanFramer (Input s)) \<and> chan_ok (ChanFramer (Output s)) \<and>
    has_room (ChanFramer (Input s)) \<longrightarrow>
      (\<exists>s'. StreamInput_WriteFrame K frame s = Returns (None, s'))) \<and>
   (input_admits K frame s \<and> chan_ok (ChanFramer (Input s)) \<and>
    \<not> has_room (ChanFramer (Input s)) \<longrightarrow>
      StreamInput_WriteFrame K frame s = Blocks)"
proof (intro conjI allI impI)
  fix e s'
  show "StreamInput_WriteFrame K frame s \<noteq> Returns (Some e, s')"
  proof (cases "HalfStream_Closed InputHalf s")
    case True
    then show ?thesis by (simp add: StreamInput_WriteFrame_def)
  next
    case False
    then show ?thesis
      using StreamInput_WriteFrame_cases [of K frame s]
        HalfStream_WriteFrame_open_no_error [of InputHalf s K frame e s']
      by auto
  qed
next
  assume "\<not> input_admits K frame s"
  then show "StreamInput_WriteFrame K frame s = Returns (None, s)"
    using StreamInput_WriteFrame_cases [of K frame s] by (simp add: input_admits_def)
next
  assume ok: "chan_ok (ChanFramer (Input s)) \<and> chan_ok (ChanFramer (Output s)) \<and>
    has_room (ChanFramer (Input s))"
  show "\<exists>s'. StreamInput_WriteFrame K frame s = Returns (None, s')"
  proof (cases "HalfStream_Closed InputHalf s")
    case True
    then show ?thesis by (simp add: StreamInput_WriteFrame_def)
  next
    case False
    with ok have "\<exists>s'. HalfStream_WriteFrame K InputHalf frame s = Returns (None, s')"
      using HalfStream_WriteFrame_returns [of InputHalf s frame K]
      by (simp add: HalfStream_Closed_def ChanFramer_Closed_def chan_ok_def)
    then show ?thesis
      using StreamInput_WriteFrame_cases [of K frame s] by auto
  qed
next
  assume "input_admits K frame s \<and> chan_ok (ChanFramer (Input s)) \<and>
    \<not> has_room (ChanFramer (Input s))"
  then show "StreamInput_WriteFrame K frame s = Blocks"
    using admitted_on_full_queue [of K frame s] by simp
qed

text \<open>
  The claim as written (nil is returned for every frame in every state) fails when
  the receive queue is full: after an OpenStream and 4095 Data frames have been
  admitted and nothing has been read, the call for the next Data frame blocks.
\<close>

theorem full_queue_blocks_counterexample:
  "feed_input draft_consts (SynStreamFrame 0 1 [] # replicate 4096 (DataFrame 1 0 [])) (NewStream 1 False)
     = Blocks"
proof -
  have first: "StreamInput_WriteFrame draft_consts (SynStreamFrame 0 1 []) (NewStream 1 False) =
      Returns (None, queued [SynStreamFrame 0 1 []] 1)"
    by code_simp
  have "feed_input draft_consts (replicate 4095 (DataFrame 1 0 [])) (queued [SynStreamFrame 0 1 []] (of_nat 1)) =
      Returns (queued ([SynStreamFrame 0 1 []] @ replicate 4095 (DataFrame 1 0 [])) (of_nat (1 + 4095)))"
    by (rule feed_data) simp_all
  then have fed: "feed_input draft_consts (replicate 4095 (DataFrame 1 0 [])) (queued [SynStreamFrame 0 1 []] 1) =
      Returns (queued (SynStreamFrame 0 1 [] # replicate 4095 (DataFrame 1 0 [])) 4096)"
    by simp
  have last: "StreamInput_WriteFrame draft_consts (DataFrame 1 0 [])
      (queued (SynStreamFrame 0 1 [] # replicate 4095 (DataFrame 1 0 [])) 4096) = Blocks"
    by (rule queued_full_blocks) simp_all
  have split: "replicate 4096 (DataFrame 1 0 []) = replicate 4095 (DataFrame 1 0 []) @ [DataFrame 1 0 []]"
    by (metis replicate_append_same replicate_Suc numeral_eq_Suc eval_nat_numeral(3) Suc_numeral semiring_norm(2,8))
  have app: "feed_input K (xs @ ys) s = and_then (feed_input K xs s) (feed_input K ys)" for K xs ys s
  proof (induction xs arbitrary: s)
    case Nil
    show ?case by simp
  next
    case (Cons x xs)
    show ?case by (cases "StreamInput_WriteFrame K x s") (auto simp: Cons.IH)
  qed
  show ?thesis
    by (simp add: first split app fed last)
qed

text \<open>
  A dropped and an admitted frame on a new stream, whose channels are open and whose
  queue has room; a Data frame that is admitted while 4096 frames are waiting.
\<close>

theorem StreamInput_WriteFrame_no_error_witness:
  "\<not> input_admits draft_consts (DataFrame 1 0 []) (NewStream 1 False) \<and>
   StreamInput_WriteFrame draft_consts (DataFrame 1 0 []) (NewStream 1 False) =
     Returns (None, NewStream 1 False) \<and>
   (chan_ok (ChanFramer (Input (NewStream 1 False))) \<and>
    chan_ok (ChanFramer (Output (NewStream 1 False))) \<and>
    has_room (ChanFramer (Input (NewStream 1 False)))) \<and>
   (\<exists>s'. StreamInput_WriteFrame draft_consts (SynStreamFrame 0 1 []) (NewStream 1 False) =
      Returns (None, s')) \<and>
   (input_admits draft_consts (DataFrame 1 0 []) (queued (replicate 4096 (DataFrame 1 0 [])) 4096) \<and>
    chan_ok (ChanFramer (Input (queued (replicate 4096 (DataFrame 1 0 [])) 4096))) \<and>
    \<not> has_room (ChanFramer (Input (queued (replicate 4096 (DataFrame 1 0 [])) 4096)))) \<and>
   StreamInput_WriteFrame draft_consts (DataFrame 1 0 [])
     (queued (replicate 4096 (DataFrame 1 0 [])) 4096) = Blocks"
proof -
  have f: "input_admits draft_consts (DataFrame 1 0 []) (queued (replicate 4096 (DataFrame 1 0 [])) 4096) \<and>
    chan_ok (ChanFramer (Input (queued (replicate 4096 (DataFrame 1 0 [])) 4096))) \<and>
    \<not> has_room (ChanFramer (Input (queued (replicate 4096 (DataFrame 1 0 [])) 4096)))"
    by (simp add: input_admits_def StreamInput_WriteFrame_def HalfStream_Closed_def
        ChanFramer_Closed_def queued_def chan_ok_def has_room_def chan_cap_def)
  have g: "StreamInput_WriteFrame draft_consts (DataFrame 1 0 [])
     (queued (replicate 4096 (DataFrame 1 0 [])) 4096) = Blocks"
    using f StreamInput_WriteFrame_no_error [of draft_consts "DataFrame 1 0 []"
        "queued (replicate 4096 (DataFrame 1 0 [])) 4096"]
    by blast
  have a: "\<not> input_admits draft_consts (DataFrame 1 0 []) (NewStream 1 False)"
    by code_simp
  have b: "chan_ok (ChanFramer (Input (NewStream 1 False))) \<and>
    chan_ok (ChanFramer (Output (NewStream 1 False))) \<and>
    has_room (ChanFramer (Input (NewStream 1 False)))"
    by simp
  have h: "\<not> input_admits draft_consts (DataFrame 1 0 []) (NewStream 1 False) \<and>
   StreamInput_WriteFrame draft_consts (DataFrame 1 0 []) (NewStream 1 False) =
     Returns (None, NewStream 1 False) \<and>
   (chan_ok (ChanFramer (Input (NewStream 1 False))) \<and>
    chan_ok (ChanFramer (Output (NewStream 1 False))) \<and>
    has_room (ChanFramer (Input (NewStream 1 False)))) \<and>
   (\<exists>s'. StreamInput_WriteFrame draft_consts (SynStreamFrame 0 1 []) (NewStream 1 False) =
      Returns (None, s'))"
    using a b StreamInput_WriteFrame_no_error [of draft_consts "DataFrame 1 0 []" "NewStream 1 False"]
      StreamInput_WriteFrame_no_error [of draft_consts "SynStreamFrame 0 1 []" "NewStream 1 False"]
    by blast
  from h f g show ?thesis by simp
qed

text \<open>
  Claim C10. \<^verbatim>\<open>Syn\<close> and \<^verbatim>\<open>Reply\<close> with nil headers do not dereference the
  nil pointer: they hand the send validator an OpenStream or Reply frame whose
  header mapping is empty, exactly as when they are given an empty mapping. On a
  new stream of the right kind the call returns nil, the queued frame is that
  frame, and the headers of the send half stay empty.
\<close>

theorem syn_reply_nil_headers:
  "Stream_Syn K None fin s =
     StreamOutput_WriteFrame K (SynStreamFrame (if fin then ControlFlagFin K else 0) (Id' s) []) s \<and>
   Stream_Reply K None fin s =
     StreamOutput_WriteFrame K (SynReplyFrame (if fin then ControlFlagFin K else 0) (Id' s) []) s \<and>
   Stream_Syn K None fin s = Stream_Syn K (Some []) fin s \<and>
   Stream_Reply K None fin s = Stream_Reply K (Some []) fin s \<and>
   (\<exists>s'. Stream_Syn K None fin (NewStream i True) = Returns (None, s') \<and>
         chan_buf (ch (ChanFramer (Output s'))) =
           [SynStreamFrame (if fin then ControlFlagFin K else 0) i []] \<and>
         Headers (Output s') = []) \<and>
   (\<exists>s'. Stream_Reply K None fin (NewStream i False) = Returns (None, s') \<and>
         chan_buf (ch (ChanFramer (Output s'))) =
           [SynReplyFrame (if fin then ControlFlagFin K else 0) i []] \<and>
         Headers (Output s') = [])"
proof (intro conjI)
  show "Stream_Syn K None fin s =
     StreamOutput_WriteFrame K (SynStreamFrame (if fin then ControlFlagFin K else 0) (Id' s) []) s"
    by (simp add: Stream_Syn_def)
  show "Stream_Reply K None fin s =
     StreamOutput_WriteFrame K (SynReplyFrame (if fin then ControlFlagFin K else 0) (Id' s) []) s"
    by (simp add: Stream_Reply_def)
  show "Stream_Syn K None fin s = Stream_Syn K (Some []) fin s"
    by (simp add: Stream_Syn_def)
  show "Stream_Reply K None fin s = Stream_Reply K (Some []) fin s"
    by (simp add: Stream_Reply_def)
  have out: "\<not> HalfStream_Closed OutputHalf (NewStream i l)" "nFrames (Output (NewStream i l)) = 0" for l
    by simp_all
  show "\<exists>s'. Stream_Syn K None fin (NewStream i True) = Returns (None, s') \<and>
         chan_buf (ch (ChanFramer (Output s'))) =
           [SynStreamFrame (if fin then ControlFlagFin K else 0) i []] \<and>
         Headers (Output s') = []"
    using first_frame_on_new_stream [of "SynStreamFrame (if fin then ControlFlagFin K else 0) i []" K i True]
    by (simp add: Stream_Syn_def StreamOutput_WriteFrame_def out)
  show "\<exists>s'. Stream_Reply K None fin (NewStream i False) = Returns (None, s') \<and>
         chan_buf (ch (ChanFramer (Output s'))) =
           [SynReplyFrame (if fin then ControlFlagFin K else 0) i []] \<and>
         Headers (Output s') = []"
    using first_frame_on_new_stream [of "SynReplyFrame (if fin then ControlFlagFin K else 0) i []" K i False]
    by (simp add: Stream_Reply_def StreamOutput_WriteFrame_def out)
qed

end
